theory Spec2Isabelle
  imports Complex_Main "HOL-Library.Word"
begin

text \<open>
  A model of \<^verbatim>\<open>main.cxx\<close>, the driver of a generator of batch updates for a directed
  graph. The program reads a graph, applies the transforms of the command line and
  then runs \<^verbatim>\<open>multi-batch\<close> rounds; a round generates a batch of edge insertions
  and deletions, applies it, writes the graph to a new file and compares, with a
  Kullback-Leibler divergence, the distribution of the in-degrees with the
  normalised weights of the generator. Every function of the file is a function
  here, under its name; a \<^verbatim>\<open>throw\<close> is a result \<open>Inl\<close>; what a function prints or
  writes is a sequence of events.
\<close>

section \<open>Values of the machine types\<close>

text \<open>
  The program computes with \<^verbatim>\<open>double\<close>, \<^verbatim>\<open>size_t\<close>, \<^verbatim>\<open>int64_t\<close> and \<^verbatim>\<open>int\<close>.

  A \<^verbatim>\<open>double\<close> is modelled as a real number or one of the three special values of
  IEEE 754, and the operations follow the IEEE rules for the special values (division
  by zero gives an infinity or NaN, NaN compares unequal to everything). On finite
  operands the result is the exact real result: rounding, overflow to an infinity,
  underflow and the sign of zero are outside the model.

  A \<^verbatim>\<open>size_t\<close> is a 64-bit word, so sums of counts wrap around as they do in the
  program. Signed integers are mathematical integers, and every place where the
  program would overflow one (undefined behaviour in C++) is an error outcome.
\<close>

datatype double = Fin real | PInf | NInf | NaN

type_synonym size_t = "64 word"

definition dneg :: "double \<Rightarrow> bool" where
  "dneg a = (case a of Fin x \<Rightarrow> x < 0 | NInf \<Rightarrow> True | _ \<Rightarrow> False)"

definition dinf :: "bool \<Rightarrow> double" where
  "dinf negative = (if negative then NInf else PInf)"

text \<open>\<^verbatim>\<open>a + b\<close>\<close>

definition dadd :: "double \<Rightarrow> double \<Rightarrow> double" where
  "dadd a b =
     (case (a, b) of
        (Fin x, Fin y) \<Rightarrow> Fin (x + y)
      | (NaN, _) \<Rightarrow> NaN
      | (_, NaN) \<Rightarrow> NaN
      | (PInf, NInf) \<Rightarrow> NaN
      | (NInf, PInf) \<Rightarrow> NaN
      | (PInf, _) \<Rightarrow> PInf
      | (NInf, _) \<Rightarrow> NInf
      | (Fin x, c) \<Rightarrow> c)"

text \<open>\<^verbatim>\<open>a * b\<close>\<close>

definition dmul :: "double \<Rightarrow> double \<Rightarrow> double" where
  "dmul a b =
     (case (a, b) of
        (Fin x, Fin y) \<Rightarrow> Fin (x * y)
      | (NaN, _) \<Rightarrow> NaN
      | (_, NaN) \<Rightarrow> NaN
      | _ \<Rightarrow> if a = Fin 0 \<or> b = Fin 0 then NaN else dinf (dneg a \<noteq> dneg b))"

text \<open>\<^verbatim>\<open>a / b\<close>\<close>

definition ddiv :: "double \<Rightarrow> double \<Rightarrow> double" where
  "ddiv a b =
     (case (a, b) of
        (Fin x, Fin y) \<Rightarrow>
          if y \<noteq> 0 then Fin (x / y) else if x = 0 then NaN else dinf (x < 0)
      | (NaN, _) \<Rightarrow> NaN
      | (_, NaN) \<Rightarrow> NaN
      | (Fin x, _) \<Rightarrow> Fin 0
      | (_, Fin y) \<Rightarrow> dinf (dneg a \<noteq> (y < 0))
      | _ \<Rightarrow> NaN)"

text \<open>\<^verbatim>\<open>log(a)\<close>, the natural logarithm of \<^verbatim>\<open><cmath>\<close>\<close>

definition dlog :: "double \<Rightarrow> double" where
  "dlog a =
     (case a of
        Fin x \<Rightarrow> if x < 0 then NaN else if x = 0 then NInf else Fin (ln x)
      | PInf \<Rightarrow> PInf
      | _ \<Rightarrow> NaN)"

text \<open>\<^verbatim>\<open>a == b\<close> and \<^verbatim>\<open>a != b\<close>\<close>

definition deq :: "double \<Rightarrow> double \<Rightarrow> bool" where
  "deq a b = (a \<noteq> NaN \<and> b \<noteq> NaN \<and> a = b)"

definition dne :: "double \<Rightarrow> double \<Rightarrow> bool" where
  "dne a b = (\<not> deq a b)"

text \<open>The conversion of a \<^verbatim>\<open>size_t\<close> to \<^verbatim>\<open>double\<close>\<close>

definition of_size :: "size_t \<Rightarrow> double" where
  "of_size n = Fin (real (unat n))"

text \<open>
  The conversion of a \<^verbatim>\<open>double\<close> to \<^verbatim>\<open>int64_t\<close> truncates towards zero; the
  behaviour is undefined when the truncated value is not an \<^verbatim>\<open>int64_t\<close>.
\<close>

definition trunc :: "real \<Rightarrow> int" where
  "trunc x = (if 0 \<le> x then \<lfloor>x\<rfloor> else \<lceil>x\<rceil>)"

datatype error =
    Invalid_argument string
  | Runtime_error string
  | Undefined_behaviour

definition to_int64 :: "double \<Rightarrow> error + int" where
  "to_int64 a =
     (case a of
        Fin x \<Rightarrow>
          if - (2 ^ 63) \<le> trunc x \<and> trunc x < 2 ^ 63 then Inr (trunc x)
          else Inl Undefined_behaviour
      | _ \<Rightarrow> Inl Undefined_behaviour)"

text \<open>The sum of a vector, accumulated from \<^verbatim>\<open>0.0\<close> from the left.\<close>

definition dsum :: "double list \<Rightarrow> double" where
  "dsum xs = foldl dadd (Fin 0) xs"

section \<open>The fidelity scorer and the distribution analyzer\<close>

text \<open>
  \<^verbatim>\<open>KLDivergence\<close> (lines 173 to 189). The loop runs over the indices below
  \<^verbatim>\<open>maxSize\<close>; the \<^verbatim>\<open>throw\<close> leaves it with \<^verbatim>\<open>std::invalid_argument\<close>.
\<close>

fun KLDivergence_loop :: "double list \<Rightarrow> double list \<Rightarrow> nat list \<Rightarrow> double \<Rightarrow> error + double" where
  "KLDivergence_loop P Q [] divergence = Inr divergence"
| "KLDivergence_loop P Q (i # idxs) divergence =
     (let pVal = (if i < length P then P ! i else Fin 0);
          qVal = (if i < length Q then Q ! i else Fin 0)
      in if dne pVal (Fin 0)
         then if deq qVal (Fin 0)
              then Inl (Invalid_argument ''Q[i] must be non-zero where P[i] is non-zero.'')
              else KLDivergence_loop P Q idxs
                     (dadd divergence (dmul pVal (dlog (ddiv (dmul pVal (Fin 1)) qVal))))
         else KLDivergence_loop P Q idxs divergence)"

definition KLDivergence :: "double list \<Rightarrow> double list \<Rightarrow> error + double" where
  "KLDivergence P Q =
     (let maxSize = max (length P) (length Q)
      in KLDivergence_loop P Q [0..<maxSize] (Fin 0))"

text \<open>
  \<^verbatim>\<open>normalize\<close> (lines 191 to 201). No statement of the function throws, so every
  result is an \<open>Inr\<close>.
\<close>

definition normalize :: "double list \<Rightarrow> error + double list" where
  "normalize vals =
     (let sum = foldl dadd (Fin 0) vals
      in Inr (map (\<lambda>v. ddiv v sum) vals))"

text \<open>
  A \<^verbatim>\<open>std::map<size_t, size_t>\<close> is a finite map; iterating over it visits the keys
  in ascending order.
\<close>

type_synonym size_map = "size_t \<rightharpoonup> size_t"

definition pairs :: "size_map \<Rightarrow> (size_t \<times> size_t) list" where
  "pairs m = map (\<lambda>k. (k, the (m k))) (sorted_list_of_set (dom m))"

text \<open>\<^verbatim>\<open>degreeDistributionToProbability\<close> (lines 203 to 213)\<close>

definition degreeDistributionToProbability :: "size_map \<Rightarrow> double list" where
  "degreeDistributionToProbability distribution =
     (let totalVertices = foldl (\<lambda>t pair. t + snd pair) 0 (pairs distribution)
      in map (\<lambda>pair. ddiv (of_size (snd pair)) (of_size totalVertices)) (pairs distribution))"

text \<open>The words of the specification for the entries of two vectors of different length.\<close>

definition entry :: "double list \<Rightarrow> nat \<Rightarrow> double" where
  "entry V i = (if i < length V then V ! i else Fin 0)"

definition kl_term :: "double \<Rightarrow> double \<Rightarrow> double" where
  "kl_term p q = (if deq p (Fin 0) then Fin 0 else dmul p (dlog (ddiv p q)))"


section \<open>The external collaborators\<close>

text \<open>
  The graph type \<^verbatim>\<open>DiGraph<int, int, int>\<close>, the readers, the transforms, the batch
  generators, the batch applier, the random number engine and the parsers of the
  standard library are not part of \<^verbatim>\<open>main.cxx\<close>. They are parameters of the model:
  a graph is a value of a type \<open>'g\<close>, the state of the engine a value of a type \<open>'r\<close>,
  and each function the program calls is a field of the record below. A generator
  returns what it leaves in its reference arguments (the engine, the insertions and
  the deletions). As the specification has it (sections 3, 4.2 and 4.3), only the
  transforms and the batch applier change the graph, and the functions of the graph
  library do not fail; \<^verbatim>\<open>stoll\<close> and \<^verbatim>\<open>stod\<close> throw on a string that is not a number,
  and opening a file can fail. The build without OpenMP is the one modelled.
\<close>

type_synonym edge = "int \<times> int \<times> int"

record ('g, 'r) ext =
  stoll :: "string \<Rightarrow> error + int"
  stod :: "string \<Rightarrow> error + double"
  file_readable :: "string \<Rightarrow> bool"
  file_creatable :: "string \<Rightarrow> bool"
  empty_graph :: "'g"
  readMtxW :: "'g \<Rightarrow> string \<Rightarrow> 'g"
  transpose_graph :: "'g \<Rightarrow> 'g"
  symmetrize_graph :: "'g \<Rightarrow> 'g"
  graph_order :: "'g \<Rightarrow> size_t"
  graph_size :: "'g \<Rightarrow> size_t"
  graph_forEachVertex :: "'g \<Rightarrow> (int \<times> int) list"
  graph_forEachVertexKey :: "'g \<Rightarrow> int list"
  graph_forEachEdge :: "'g \<Rightarrow> int \<Rightarrow> (int \<times> int) list"
  graph_indegree :: "'g \<Rightarrow> int \<Rightarrow> size_t"
  graph_degree :: "'g \<Rightarrow> int \<Rightarrow> size_t"
  mt19937_64 :: "int \<Rightarrow> 'r"
  customUpdate ::
    "string \<Rightarrow> 'r \<Rightarrow> 'g \<Rightarrow> size_t \<Rightarrow> double \<Rightarrow> double \<Rightarrow> bool
      \<Rightarrow> double list \<times> 'r \<times> edge list \<times> edge list"
  uniformUpdate ::
    "'r \<Rightarrow> 'g \<Rightarrow> size_t \<Rightarrow> double \<Rightarrow> double \<Rightarrow> bool \<Rightarrow> 'r \<times> edge list \<times> edge list"
  preferentialUpdate ::
    "'r \<Rightarrow> 'g \<Rightarrow> size_t \<Rightarrow> double \<Rightarrow> double \<Rightarrow> bool \<Rightarrow> 'r \<times> edge list \<times> edge list"
  applyBatchUpdateU :: "'g \<Rightarrow> edge list \<Rightarrow> edge list \<Rightarrow> 'g"

text \<open>
  What differs between two runs of the same command line: the value drawn from
  \<^verbatim>\<open>std::random_device\<close> and the readings of the clock (the event at position \<open>n\<close>
  of a run reads \<open>duration n\<close>).
\<close>

record env =
  random_device :: "32 word"
  duration :: "nat \<Rightarrow> real"

record options =
  params :: "string \<rightharpoonup> string"
  transforms :: "string list"

section \<open>What a run does\<close>

text \<open>
  A run is observed through the sequence of its events, in the order of execution.
  Six of them mark the steps of a round; the others are the lines the program prints.

  \<^item> \<open>Batch_size\<close>: line 308 has been executed; the value of \<^verbatim>\<open>batchSize\<close> after it.
  \<^item> \<open>Generated\<close>: the dispatch of lines 242 to 254 has returned; the update nature
    and the contents of \<^verbatim>\<open>weights\<close> after it.
  \<^item> \<open>Applied\<close>: \<^verbatim>\<open>applyBatchUpdateU\<close> of line 255 has returned; the deletions and the
    insertions it was given.
  \<^item> \<open>Analyzed\<close>: lines 317 to 320; the argument of \<^verbatim>\<open>normalize\<close>, its result and the
    result of \<^verbatim>\<open>degreeDistributionToProbability\<close>.
  \<^item> \<open>File_written\<close>: lines 328 and 329; the name of the file and its contents.
  \<^item> \<open>Scored\<close>: the call of \<^verbatim>\<open>KLDivergence\<close> of line 337 and its two arguments.

  \<open>Print_error\<close> is the line of \<^verbatim>\<open>std::cerr\<close> (line 340), \<open>Print_divergence\<close> the line
  of \<^verbatim>\<open>std::cout\<close> with the divergence (line 338), \<open>Print_degree_distribution\<close> the
  table of lines 233 to 236, and the four events with a real number are the calls
  of \<^verbatim>\<open>printf\<close> with the time elapsed, in seconds (lines 299, 302, 327 and 330).
\<close>

datatype event =
    Print_help
  | Print_read_graph real
  | Print_transform string real
  | Batch_size int
  | Generated string "double list"
  | Applied "edge list" "edge list"
  | Analyzed "double list" "double list" "double list"
  | Print_degree_distribution "(size_t \<times> size_t) list"
  | Print_perform_batch int real
  | File_written string string
  | Print_write_batch int real
  | Scored "double list" "double list"
  | Print_divergence double
  | Print_error string

datatype step =
    ComputeBatchSize | GenerateBatch | ApplyBatch | AnalyzeDistributions | WriteOutput
  | ScoreFidelity

fun step_of :: "event \<Rightarrow> step list" where
  "step_of (Batch_size b) = [ComputeBatchSize]"
| "step_of (Generated n w) = [GenerateBatch]"
| "step_of (Applied d i) = [ApplyBatch]"
| "step_of (Analyzed w a r) = [AnalyzeDistributions]"
| "step_of (File_written f c) = [WriteOutput]"
| "step_of (Scored P Q) = [ScoreFidelity]"
| "step_of _ = []"

definition steps :: "event list \<Rightarrow> step list" where
  "steps t = concat (map step_of t)"

fun file_of :: "event \<Rightarrow> (string \<times> string) list" where
  "file_of (File_written f c) = [(f, c)]"
| "file_of _ = []"

definition files :: "event list \<Rightarrow> (string \<times> string) list" where
  "files t = concat (map file_of t)"

fun batch_size_of :: "event \<Rightarrow> int list" where
  "batch_size_of (Batch_size b) = [b]"
| "batch_size_of _ = []"

definition batch_sizes :: "event list \<Rightarrow> int list" where
  "batch_sizes t = concat (map batch_size_of t)"

text \<open>
  An exception that leaves \<^verbatim>\<open>handleOptions\<close> ends the run; the events before it
  have happened. A result is the failure with the events so far, or a value.
\<close>

type_synonym 'a result = "(error \<times> event list) + 'a"

definition bindE :: "'e + 'a \<Rightarrow> ('a \<Rightarrow> 'e + 'b) \<Rightarrow> 'e + 'b" where
  "bindE m f = (case m of Inl e \<Rightarrow> Inl e | Inr x \<Rightarrow> f x)"

definition at_trace :: "event list \<Rightarrow> error + 'a \<Rightarrow> 'a result" where
  "at_trace t m = (case m of Inl e \<Rightarrow> Inl (e, t) | Inr x \<Rightarrow> Inr x)"

section \<open>The sub handlers\<close>

text \<open>\<^verbatim>\<open>std::to_string\<close> of an integer: its decimal digits, after a minus sign if negative.\<close>

fun digits :: "nat \<Rightarrow> string" where
  "digits n = (if n < 10 then [char_of (48 + n)] else digits (n div 10) @ [char_of (48 + n mod 10)])"

declare digits.simps [simp del]

definition to_string :: "int \<Rightarrow> string" where
  "to_string i = (if i < 0 then CHR ''-'' # digits (nat (- i)) else digits (nat i))"

text \<open>\<^verbatim>\<open>checkInputFile\<close> (lines 19 to 25)\<close>

definition checkInputFile :: "('g, 'r) ext \<Rightarrow> string \<Rightarrow> error + unit" where
  "checkInputFile X inputGraph =
     (if \<not> file_readable X inputGraph
      then Inl (Runtime_error (''Input graph file not found: '' @ inputGraph))
      else Inr ())"

text \<open>\<^verbatim>\<open>handleInputFormat\<close> (lines 47 to 57)\<close>

definition handleInputFormat :: "('g, 'r) ext \<Rightarrow> string \<Rightarrow> 'g \<Rightarrow> string \<Rightarrow> error + 'g" where
  "handleInputFormat X inputFormat g inputGraph =
     (if inputFormat = ''matrix-market'' then Inr (readMtxW X g inputGraph)
      else if inputFormat = ''edgelist'' then Inr g
      else if inputFormat = ''snap-temporal'' then Inr g
      else Inl (Runtime_error (''Unknown input format: '' @ inputFormat)))"

text \<open>\<^verbatim>\<open>handleInputTransform\<close> (lines 89 to 108)\<close>

definition handleInputTransform :: "('g, 'r) ext \<Rightarrow> string \<Rightarrow> 'g \<Rightarrow> error + 'g" where
  "handleInputTransform X inputTransform g =
     (if inputTransform = [] then Inr g
      else if inputTransform = ''transpose'' then Inr (transpose_graph X g)
      else if inputTransform = ''symmetrize'' then Inr (symmetrize_graph X g)
      else if inputTransform = ''unsymmetrize'' then Inr g
      else if inputTransform = ''loop-deadends'' then Inr g
      else if inputTransform = ''loop-vertices'' then Inr g
      else if inputTransform = ''clear-weights'' then Inr g
      else if inputTransform = ''set-weights'' then Inr g
      else Inl (Runtime_error (''Unknown input transform: '' @ inputTransform)))"

text \<open>
  \<^verbatim>\<open>createOutputFile\<close> (lines 119 to 125); the result is the name of the file that
  has been opened.
\<close>

definition createOutputFile :: "('g, 'r) ext \<Rightarrow> string \<Rightarrow> string \<Rightarrow> int \<Rightarrow> error + string" where
  "createOutputFile X outDir outPrefix n =
     (let outputFileName = outDir @ outPrefix @ ''_'' @ to_string n
      in if \<not> file_creatable X outputFileName
         then Inl (Runtime_error (''Failed to create file: '' @ outputFileName))
         else Inr outputFileName)"

text \<open>\<^verbatim>\<open>writeEdgeList\<close> with \<^verbatim>\<open>weighted = true\<close> (lines 137 to 146): what is written to the file.\<close>

definition writeEdgeList :: "('g, 'r) ext \<Rightarrow> 'g \<Rightarrow> string" where
  "writeEdgeList X g =
     to_string (uint (graph_order X g)) @ '' '' @ to_string (uint (graph_size X g)) @ [CHR 0x0A]
     @ concat (map (\<lambda>(u, d).
         concat (map (\<lambda>(v, w).
           to_string u @ '' '' @ to_string v @ '' '' @ to_string w @ [CHR 0x0A])
           (graph_forEachEdge X g u)))
         (graph_forEachVertex X g))"

text \<open>\<^verbatim>\<open>distribution[k]++\<close> on a \<^verbatim>\<open>std::map<size_t, size_t>\<close>\<close>

definition increment :: "size_map \<Rightarrow> size_t \<Rightarrow> size_map" where
  "increment m k = m(k \<mapsto> (case m k of None \<Rightarrow> 0 | Some c \<Rightarrow> c) + 1)"

text \<open>\<^verbatim>\<open>calculateInDegreeDistribution\<close> (lines 217 to 222)\<close>

definition calculateInDegreeDistribution :: "('g, 'r) ext \<Rightarrow> 'g \<Rightarrow> size_map \<Rightarrow> size_map" where
  "calculateInDegreeDistribution X g distribution =
     foldl (\<lambda>m u. increment m (graph_indegree X g u)) distribution (graph_forEachVertexKey X g)"

text \<open>
  \<^verbatim>\<open>calculateDegreeDistribution\<close> (lines 225 to 237): the event that prints the table.
\<close>

definition calculateDegreeDistribution :: "('g, 'r) ext \<Rightarrow> 'g \<Rightarrow> event" where
  "calculateDegreeDistribution X g =
     (let degreeDistribution =
        foldl (\<lambda>m u. increment m (graph_degree X g u)) Map.empty (graph_forEachVertexKey X g)
      in Print_degree_distribution (pairs degreeDistribution))"

text \<open>
  \<^verbatim>\<open>handleUpdateNature\<close> (lines 240 to 256). The arguments passed by reference
  (\<^verbatim>\<open>graph\<close>, \<^verbatim>\<open>rng\<close>, \<^verbatim>\<open>weights\<close>) are returned with their new values, after them
  the events of the call.
\<close>

definition handleUpdateNature ::
  "('g, 'r) ext \<Rightarrow> string \<Rightarrow> string \<Rightarrow> 'g \<Rightarrow> 'r \<Rightarrow> size_t \<Rightarrow> double \<Rightarrow> double \<Rightarrow> double list
    \<Rightarrow> bool \<Rightarrow> error + ('g \<times> 'r \<times> double list \<times> event list)" where
  "handleUpdateNature X probDist nature g r bSize eDeletions eInsertions weights allowDup =
     bindE
       (if nature = [] then
          (case customUpdate X probDist r g bSize eInsertions eDeletions allowDup of
             (w, r', insertions, deletions) \<Rightarrow> Inr (w, r', insertions, deletions))
        else if nature = ''uniform'' then
          (case uniformUpdate X r g bSize eInsertions eDeletions allowDup of
             (r', insertions, deletions) \<Rightarrow> Inr (weights, r', insertions, deletions))
        else if nature = ''preferential'' then
          (case preferentialUpdate X r g bSize eInsertions eDeletions allowDup of
             (r', insertions, deletions) \<Rightarrow> Inr (weights, r', insertions, deletions))
        else if nature = ''planted'' then Inr (weights, r, [], [])
        else if nature = ''match'' then Inr (weights, r, [], [])
        else Inl (Runtime_error (''Unknown update nature: '' @ nature)))
       (\<lambda>(w, r', insertions, deletions).
          Inr (applyBatchUpdateU X g deletions insertions, r', w,
               [Generated nature w, Applied deletions insertions]))"

section \<open>The main handler\<close>

text \<open>
  The variables of \<^verbatim>\<open>handleOptions\<close> that the loop reads, and those it changes.
\<close>

record config =
  outputDir :: string
  outputPrefix :: string
  batchSizeRatio :: double
  edgeInsertions :: double
  edgeDeletions :: double
  allowDuplicateEdges :: bool
  probabilityDistribution :: string
  updateNature :: string

record ('g, 'r) run_state =
  graph :: 'g
  rng :: 'r
  batchSize :: int
  counter :: int
  trace :: "event list"

text \<open>
  Line 308. The product is a \<^verbatim>\<open>double\<close>; its conversion to \<^verbatim>\<open>int64_t\<close> is undefined
  when it is out of range.
\<close>

definition computeBatchSize ::
  "('g, 'r) ext \<Rightarrow> config \<Rightarrow> ('g, 'r) run_state \<Rightarrow> ('g, 'r) run_state result" where
  "computeBatchSize X c s =
     bindE
       (at_trace (trace s)
          (if batchSize s = 0
           then to_int64 (dmul (of_size (graph_size X (graph s))) (batchSizeRatio c))
           else Inr (batchSize s)))
       (\<lambda>b. Inr (s\<lparr>batchSize := b, trace := trace s @ [Batch_size b]\<rparr>))"

text \<open>
  Lines 309 and 310: \<^verbatim>\<open>weights\<close> is a new, empty vector in every round; the signed
  \<^verbatim>\<open>batchSize\<close> becomes the \<^verbatim>\<open>size_t\<close> parameter.
\<close>

definition updateGraph ::
  "('g, 'r) ext \<Rightarrow> config \<Rightarrow> ('g, 'r) run_state \<Rightarrow> (('g, 'r) run_state \<times> double list) result" where
  "updateGraph X c s =
     bindE
       (at_trace (trace s)
          (handleUpdateNature X (probabilityDistribution c) (updateNature c) (graph s) (rng s)
             (word_of_int (batchSize s)) (edgeDeletions c) (edgeInsertions c) []
             (allowDuplicateEdges c)))
       (\<lambda>(g', r', weights, evs).
          Inr (s\<lparr>graph := g', rng := r', trace := trace s @ evs\<rparr>, weights))"

text \<open>Lines 317 to 326: the two probability vectors, and the table of degrees.\<close>

definition analyzeDistributions ::
  "('g, 'r) ext \<Rightarrow> ('g, 'r) run_state \<Rightarrow> double list
    \<Rightarrow> (('g, 'r) run_state \<times> double list \<times> double list) result" where
  "analyzeDistributions X s weights =
     bindE (at_trace (trace s) (normalize weights))
       (\<lambda>normalised_weights_actual.
          let inDegreeDistribution = calculateInDegreeDistribution X (graph s) Map.empty;
              normalised_weights_real = degreeDistributionToProbability inDegreeDistribution
          in Inr (s\<lparr>trace := trace s
                      @ [Analyzed weights normalised_weights_actual normalised_weights_real,
                         calculateDegreeDistribution X (graph s)]\<rparr>,
                  normalised_weights_real, normalised_weights_actual))"

text \<open>
  Lines 327 to 330. \<^verbatim>\<open>counter\<close> is an \<^verbatim>\<open>int\<close>: incrementing it at its largest value
  is undefined.
\<close>

definition writeRound ::
  "('g, 'r) ext \<Rightarrow> config \<Rightarrow> env \<Rightarrow> ('g, 'r) run_state \<Rightarrow> ('g, 'r) run_state result" where
  "writeRound X c E s =
     (if counter s = 2 ^ 31 - 1 then Inl (Undefined_behaviour, trace s)
      else
        let t1 = trace s @ [Print_perform_batch (counter s + 1) (duration E (length (trace s)) / 1000)];
            n = counter s + 1
        in bindE (at_trace t1 (createOutputFile X (outputDir c) (outputPrefix c) n))
             (\<lambda>outputFileName.
                let t2 = t1 @ [File_written outputFileName (writeEdgeList X (graph s))];
                    t3 = t2 @ [Print_write_batch n (duration E (length t2) / 1000)]
                in Inr (s\<lparr>counter := n, trace := t3\<rparr>)))"

text \<open>
  Lines 336 to 341. Only \<^verbatim>\<open>std::invalid_argument\<close> is caught; any other exception
  would leave the loop.
\<close>

definition scoreFidelity ::
  "('g, 'r) run_state \<Rightarrow> double list \<Rightarrow> double list \<Rightarrow> ('g, 'r) run_state result" where
  "scoreFidelity s normalised_weights_real normalised_weights_actual =
     (let t1 = trace s @ [Scored normalised_weights_real normalised_weights_actual]
      in case KLDivergence normalised_weights_real normalised_weights_actual of
           Inr divergence \<Rightarrow> Inr (s\<lparr>trace := t1 @ [Print_divergence divergence]\<rparr>)
         | Inl (Invalid_argument what) \<Rightarrow> Inr (s\<lparr>trace := t1 @ [Print_error (''Error: '' @ what)]\<rparr>)
         | Inl e \<Rightarrow> Inl (e, t1))"

text \<open>The body of the loop (lines 308 to 341): one round.\<close>

definition round_body ::
  "('g, 'r) ext \<Rightarrow> config \<Rightarrow> env \<Rightarrow> ('g, 'r) run_state \<Rightarrow> ('g, 'r) run_state result" where
  "round_body X c E s =
     bindE (computeBatchSize X c s) (\<lambda>s1.
     bindE (updateGraph X c s1) (\<lambda>(s2, weights).
     bindE (analyzeDistributions X s2 weights) (\<lambda>(s3, normalised_weights_real, normalised_weights_actual).
     bindE (writeRound X c E s3) (\<lambda>s4.
     scoreFidelity s4 normalised_weights_real normalised_weights_actual))))"

text \<open>
  \<^verbatim>\<open>while (multiBatch--)\<close> (line 307): the loop ends when \<^verbatim>\<open>multiBatch\<close> is zero;
  decrementing the least \<^verbatim>\<open>int64_t\<close> is undefined.
\<close>

function run_loop ::
  "('g, 'r) ext \<Rightarrow> config \<Rightarrow> env \<Rightarrow> int \<Rightarrow> ('g, 'r) run_state \<Rightarrow> ('g, 'r) run_state result" where
  "run_loop X c E multiBatch s =
     (if multiBatch = 0 then Inr s
      else if multiBatch \<le> - (2 ^ 63) then Inl (Undefined_behaviour, trace s)
      else case round_body X c E s of
             Inl f \<Rightarrow> Inl f
           | Inr s' \<Rightarrow> run_loop X c E (multiBatch - 1) s')"
  by pat_completeness auto
termination
  by (relation "measure (\<lambda>(X, c, E, multiBatch, s).
        nat (if 0 \<le> multiBatch then multiBatch else multiBatch + 2 ^ 63))") auto

declare run_loop.simps [simp del]

text \<open>The loop of lines 300 to 303 over the transforms.\<close>

fun apply_transforms ::
  "('g, 'r) ext \<Rightarrow> env \<Rightarrow> string list \<Rightarrow> 'g \<Rightarrow> event list \<Rightarrow> ('g \<times> event list) result" where
  "apply_transforms X E [] g t = Inr (g, t)"
| "apply_transforms X E (inputTransform # rest) g t =
     bindE (at_trace t (handleInputTransform X inputTransform g))
       (\<lambda>g'. apply_transforms X E rest g'
                (t @ [Print_transform inputTransform (duration E (length t) / 1000)]))"

text \<open>\<^verbatim>\<open>options.params.count(k) ? f(options.params.at(k)) : d\<close>\<close>

definition param :: "options \<Rightarrow> string \<Rightarrow> (string \<Rightarrow> error + 'a) \<Rightarrow> 'a \<Rightarrow> 'a result" where
  "param opts k f d = (case params opts k of None \<Rightarrow> Inr d | Some v \<Rightarrow> at_trace [] (f v))"

text \<open>
  \<^verbatim>\<open>handleOptions\<close> (lines 264 to 343). The numbers are parsed in the order of the
  declarations, so the first one that cannot be parsed ends the run. The result of a
  run that returns is its sequence of events.
\<close>

definition handleOptions :: "('g, 'r) ext \<Rightarrow> options \<Rightarrow> env \<Rightarrow> event list result" where
  "handleOptions X opts E =
     (if params opts ''help'' \<noteq> None then Inr [Print_help]
      else
        bindE (param opts ''input-graph'' Inr []) (\<lambda>inputGraph.
        bindE (param opts ''input-format'' Inr []) (\<lambda>inputFormat.
        bindE (param opts ''output-dir'' Inr []) (\<lambda>outDir.
        bindE (param opts ''output-prefix'' Inr []) (\<lambda>outPrefix.
        bindE (param opts ''batch-size'' (stoll X) 0) (\<lambda>bSize.
        bindE (param opts ''batch-size-ratio'' (stod X) (Fin 0)) (\<lambda>bSizeRatio.
        bindE (param opts ''edge-insertions'' (stod X) (Fin 0)) (\<lambda>eInsertions.
        bindE (param opts ''edge-deletions'' (stod X) (Fin 0)) (\<lambda>eDeletions.
        bindE (param opts ''vertex-insertions'' (stod X) (Fin 0)) (\<lambda>vertexInsertions.
        bindE (param opts ''vertex-deletions'' (stod X) (Fin 0)) (\<lambda>vertexDeletions.
        bindE (param opts ''vertex-growth-rate'' (stod X) (Fin 0)) (\<lambda>vertexGrowthRate.
        bindE (param opts ''probability-distribution'' Inr []) (\<lambda>probDist.
        bindE (param opts ''update-nature'' Inr []) (\<lambda>nature.
        bindE (param opts ''min-degree'' (stoll X) 0) (\<lambda>minDegree.
        bindE (param opts ''max-degree'' (stoll X) 0) (\<lambda>maxDegree.
        bindE (param opts ''max-diameter'' (stoll X) 0) (\<lambda>maxDiameter.
        bindE (param opts ''preserve-k-core'' (stoll X) 0) (\<lambda>preserveKCore.
        bindE (param opts ''multi-batch'' (stoll X) 1) (\<lambda>multiBatch.
        bindE (param opts ''seed'' (stoll X) (uint (random_device E))) (\<lambda>seed.
        bindE (at_trace [] (checkInputFile X inputGraph)) (\<lambda>u.
        bindE (at_trace [] (handleInputFormat X inputFormat (empty_graph X) inputGraph)) (\<lambda>g.
        bindE (apply_transforms X E (transforms opts) g [Print_read_graph (duration E 0 / 1000)])
          (\<lambda>(g', t).
        bindE (run_loop X
                 \<lparr>outputDir = outDir, outputPrefix = outPrefix, batchSizeRatio = bSizeRatio,
                  edgeInsertions = eInsertions, edgeDeletions = eDeletions,
                  allowDuplicateEdges = (params opts ''allow-duplicate-edges'' \<noteq> None),
                  probabilityDistribution = probDist, updateNature = nature\<rparr>
                 E multiBatch
                 \<lparr>graph = g', rng = mt19937_64 X seed, batchSize = bSize, counter = 0, trace = t\<rparr>)
          (\<lambda>s. Inr (trace s)))))))))))))))))))))))))"

section \<open>Runs of a given number of rounds\<close>

text \<open>The loop of \<open>n\<close> rounds, and the steps of one round in the order of the program.\<close>

fun rounds ::
  "('g, 'r) ext \<Rightarrow> config \<Rightarrow> env \<Rightarrow> nat \<Rightarrow> ('g, 'r) run_state \<Rightarrow> ('g, 'r) run_state result" where
  "rounds X c E 0 s = Inr s"
| "rounds X c E (Suc n) s = bindE (round_body X c E s) (rounds X c E n)"

definition round_steps :: "step list" where
  "round_steps =
     [ComputeBatchSize, GenerateBatch, ApplyBatch, AnalyzeDistributions, WriteOutput, ScoreFidelity]"

section \<open>A small instance of the collaborators\<close>

text \<open>
  An instance on which the theorems are evaluated. A graph is the number of its
  edges, all of them loops of weight 1 on the vertex 0; an engine is a counter. The
  file \<^verbatim>\<open>g.mtx\<close> holds one edge. Every generator draws one insertion, whatever the
  size of the batch, and the generator of the custom path gives it the weight 1.
\<close>

definition demo_stoll :: "string \<Rightarrow> error + int" where
  "demo_stoll v =
     (if v \<noteq> [] \<and> list_all (\<lambda>ch. 48 \<le> (of_char ch :: nat) \<and> (of_char ch :: nat) \<le> 57) v
      then Inr (foldl (\<lambda>a ch. 10 * a + (of_char ch - 48)) 0 v)
      else Inl (Invalid_argument ''stoll''))"

definition demo_stod :: "string \<Rightarrow> error + double" where
  "demo_stod v =
     (if v = ''0.5'' then Inr (Fin (1 / 2))
      else case demo_stoll v of Inl e \<Rightarrow> Inl (Invalid_argument ''stod'') | Inr i \<Rightarrow> Inr (Fin (real_of_int i)))"

definition demo :: "(nat, nat) ext" where
  "demo =
     \<lparr>stoll = demo_stoll,
      stod = demo_stod,
      file_readable = (\<lambda>f. f = ''g.mtx''),
      file_creatable = (\<lambda>f. True),
      empty_graph = 0,
      readMtxW = (\<lambda>g f. 1),
      transpose_graph = (\<lambda>g. g),
      symmetrize_graph = (\<lambda>g. 2 * g),
      graph_order = (\<lambda>g. 1),
      graph_size = (\<lambda>g. of_nat g),
      graph_forEachVertex = (\<lambda>g. [(0, 0)]),
      graph_forEachVertexKey = (\<lambda>g. [0]),
      graph_forEachEdge = (\<lambda>g u. replicate g (0, 1)),
      graph_indegree = (\<lambda>g u. of_nat g),
      graph_degree = (\<lambda>g u. of_nat g),
      mt19937_64 = (\<lambda>seed. nat seed),
      customUpdate = (\<lambda>probDist r g b i d allow. ([Fin 1], Suc r, [(0, 0, 1)], [])),
      uniformUpdate = (\<lambda>r g b i d allow. (Suc r, [(0, 0, 1)], [])),
      preferentialUpdate = (\<lambda>r g b i d allow. (Suc r, [(0, 0, 1)], [])),
      applyBatchUpdateU = (\<lambda>g deletions insertions. g + length insertions - length deletions)\<rparr>"

definition demo_config :: "string \<Rightarrow> config" where
  "demo_config nature =
     \<lparr>outputDir = ''out/'', outputPrefix = ''g'', batchSizeRatio = Fin (1 / 2),
      edgeInsertions = Fin 1, edgeDeletions = Fin 0, allowDuplicateEdges = True,
      probabilityDistribution = [], updateNature = nature\<rparr>"

definition demo_env :: "env" where
  "demo_env = \<lparr>random_device = 0, duration = (\<lambda>n. 0)\<rparr>"

definition demo_state :: "(nat, nat) run_state" where
  "demo_state = \<lparr>graph = 1, rng = 0, batchSize = 0, counter = 0, trace = []\<rparr>"

section \<open>Observing results\<close>

text \<open>The events of a run of the loop, whether it returned or failed.\<close>

definition result_trace :: "('g, 'r) run_state result \<Rightarrow> event list" where
  "result_trace res = (case res of Inl (e, t) \<Rightarrow> t | Inr s \<Rightarrow> trace s)"

text \<open>\<^verbatim>\<open>options.params.count(k) ? options.params.at(k) : d\<close> as a value\<close>

definition option_or :: "'a option \<Rightarrow> 'a \<Rightarrow> 'a" where
  "option_or v d = (case v of None \<Rightarrow> d | Some x \<Rightarrow> x)"

text \<open>The vectors handed to \<^verbatim>\<open>normalize\<close> and, as second argument, to \<^verbatim>\<open>KLDivergence\<close>.\<close>

fun normalize_argument_of :: "event \<Rightarrow> double list list" where
  "normalize_argument_of (Analyzed w a p) = [w]"
| "normalize_argument_of _ = []"

definition normalize_arguments :: "event list \<Rightarrow> double list list" where
  "normalize_arguments t = concat (map normalize_argument_of t)"

fun scorer_argument_of :: "event \<Rightarrow> double list list" where
  "scorer_argument_of (Scored P Q) = [Q]"
| "scorer_argument_of _ = []"

definition scorer_arguments :: "event list \<Rightarrow> double list list" where
  "scorer_arguments t = concat (map scorer_argument_of t)"

text \<open>The files of a run of \<^verbatim>\<open>handleOptions\<close>, and the exception that ended it, if any.\<close>

definition run_files :: "event list result \<Rightarrow> (string \<times> string) list" where
  "run_files res = files (case res of Inl (e, t) \<Rightarrow> t | Inr t \<Rightarrow> t)"

definition run_error :: "event list result \<Rightarrow> error option" where
  "run_error res = (case res of Inl (e, t) \<Rightarrow> Some e | Inr t \<Rightarrow> None)"

text \<open>A command line for the small instance: two rounds on the transposed graph.\<close>

definition demo_options :: options where
  "demo_options =
     \<lparr>params =
        [''input-graph'' \<mapsto> ''g.mtx'', ''input-format'' \<mapsto> ''matrix-market'',
         ''output-dir'' \<mapsto> ''out/'', ''output-prefix'' \<mapsto> ''g'',
         ''batch-size-ratio'' \<mapsto> ''0.5'', ''update-nature'' \<mapsto> ''uniform'',
         ''multi-batch'' \<mapsto> ''2'', ''seed'' \<mapsto> ''7''],
      transforms = [''transpose'']\<rparr>"

section \<open>Runs that differ in the clock and in the random device only\<close>

text \<open>
  An event without the reading of the clock that it prints; two sequences of events,
  two states and two results that agree on everything but these readings.
\<close>

fun untimed :: "event \<Rightarrow> event" where
  "untimed (Print_read_graph x) = Print_read_graph 0"
| "untimed (Print_transform n x) = Print_transform n 0"
| "untimed (Print_perform_batch k x) = Print_perform_batch k 0"
| "untimed (Print_write_batch k x) = Print_write_batch k 0"
| "untimed ev = ev"

definition same_events :: "event list \<Rightarrow> event list \<Rightarrow> bool" where
  "same_events t u = (map untimed t = map untimed u)"

definition same_state :: "('g, 'r) run_state \<Rightarrow> ('g, 'r) run_state \<Rightarrow> bool" where
  "same_state s1 s2 =
     (graph s1 = graph s2 \<and> rng s1 = rng s2 \<and> batchSize s1 = batchSize s2
      \<and> counter s1 = counter s2 \<and> same_events (trace s1) (trace s2))"

definition same_result :: "('a \<Rightarrow> 'a \<Rightarrow> bool) \<Rightarrow> 'a result \<Rightarrow> 'a result \<Rightarrow> bool" where
  "same_result R res1 res2 =
     (case (res1, res2) of
        (Inl (e1, t1), Inl (e2, t2)) \<Rightarrow> e1 = e2 \<and> same_events t1 t2
      | (Inr x, Inr y) \<Rightarrow> R x y
      | _ \<Rightarrow> False)"

section \<open>Arithmetic on the values of type double\<close>

lemma dadd_zero_right: "dadd a (Fin 0) = a"
  by (cases a) (simp_all add: dadd_def)

lemma dmul_one_right: "dmul a (Fin 1) = a"
  by (cases a) (simp_all add: dmul_def dinf_def dneg_def)







lemma ddiv_zero_not_Fin: "ddiv v (Fin 0) \<noteq> Fin r"
  by (cases v) (simp_all add: ddiv_def dinf_def dneg_def)

section \<open>The fidelity scorer\<close>

lemma KLDivergence_loop_eq:
  "KLDivergence_loop P Q idxs acc =
     (if \<exists>i \<in> set idxs. dne (entry P i) (Fin 0) \<and> deq (entry Q i) (Fin 0)
      then Inl (Invalid_argument ''Q[i] must be non-zero where P[i] is non-zero.'')
      else Inr (foldl dadd acc (map (\<lambda>i. kl_term (entry P i) (entry Q i)) idxs)))"
proof (induction idxs arbitrary: acc)
  case Nil
  then show ?case by simp
next
  case (Cons i idxs)
  show ?case
  proof (cases "dne (entry P i) (Fin 0)")
    case True
    then show ?thesis
      using Cons.IH
      by (simp add: Let_def entry_def kl_term_def dne_def dmul_one_right)
  next
    case False
    then show ?thesis
      using Cons.IH
      by (simp add: Let_def entry_def kl_term_def dne_def dadd_zero_right)
  qed
qed

text \<open>
  Claim C1. For all vectors \<open>P\<close> and \<open>Q\<close>, with \<open>n\<close> the larger of the two lengths and
  an entry beyond the length of a vector read as \<open>0.0\<close>: \<open>KLDivergence P Q\<close> throws
  \<^verbatim>\<open>std::invalid_argument\<close> (the DivergenceUndefined of the specification) exactly
  when some index below \<open>n\<close> has \<open>P[i] != 0\<close> and \<open>Q[i] == 0\<close>; otherwise it returns the
  sum over the indices below \<open>n\<close> of \<open>P[i] * log(P[i] / Q[i])\<close>, where an index with
  \<open>P[i] == 0\<close> contributes \<open>0.0\<close> whatever \<open>Q[i]\<close> is.
\<close>

theorem KLDivergence_sum:
  "KLDivergence P Q =
     (if \<exists>i < max (length P) (length Q). dne (entry P i) (Fin 0) \<and> deq (entry Q i) (Fin 0)
      then Inl (Invalid_argument ''Q[i] must be non-zero where P[i] is non-zero.'')
      else Inr (dsum (map (\<lambda>i. kl_term (entry P i) (entry Q i))
                  [0..<max (length P) (length Q)])))"
proof -
  have "(\<exists>i \<in> set [0..<max (length P) (length Q)]. dne (entry P i) (Fin 0) \<and> deq (entry Q i) (Fin 0))
        = (\<exists>i < max (length P) (length Q). dne (entry P i) (Fin 0) \<and> deq (entry Q i) (Fin 0))"
    by auto
  then show ?thesis
    by (simp only: KLDivergence_def KLDivergence_loop_eq dsum_def Let_def)
qed

text \<open>
  The example of the specification: with \<open>P = [1.0, 0.0]\<close> and \<open>Q = [0.5, 0.5]\<close> the
  divergence of \<open>Q\<close> from \<open>P\<close> is \<open>ln 2\<close>, and the divergence of \<open>P\<close> from \<open>Q\<close> is undefined.
\<close>

theorem KLDivergence_sum_example:
  "KLDivergence [Fin 1, Fin 0] [Fin (1 / 2), Fin (1 / 2)] = Inr (Fin (ln 2))
   \<and> KLDivergence [Fin (1 / 2), Fin (1 / 2)] [Fin 1, Fin 0]
       = Inl (Invalid_argument ''Q[i] must be non-zero where P[i] is non-zero.'')"
proof
  have two: "\<And>R. (\<exists>i < Suc (Suc 0). R i) = (R 0 \<or> R (Suc 0))"
    by (simp add: Ex_less_Suc disj_commute)
  show "KLDivergence [Fin 1, Fin 0] [Fin (1 / 2), Fin (1 / 2)] = Inr (Fin (ln 2))"
    using KLDivergence_sum [of "[Fin 1, Fin 0]" "[Fin (1 / 2), Fin (1 / 2)]"]
    by (simp add: two upt_rec entry_def kl_term_def dsum_def dne_def deq_def dmul_def ddiv_def
        dlog_def dadd_def)
  show "KLDivergence [Fin (1 / 2), Fin (1 / 2)] [Fin 1, Fin 0]
       = Inl (Invalid_argument ''Q[i] must be non-zero where P[i] is non-zero.'')"
    using KLDivergence_sum [of "[Fin (1 / 2), Fin (1 / 2)]" "[Fin 1, Fin 0]"]
    by (simp add: two entry_def dne_def deq_def)
qed

section \<open>The distribution analyzer\<close>

lemma normalize_eq: "normalize vals = Inr (map (\<lambda>v. ddiv v (dsum vals)) vals)"
  by (simp add: normalize_def dsum_def)



text \<open>
  Claim C3, as the program has it. \<open>normalize\<close> has no failure: it returns a vector
  for every argument. For the empty sequence the result is the empty vector. For a
  sequence whose sum is zero the result has the length of the argument, and every
  entry is the quotient of a division by zero: NaN or an infinity.
\<close>

theorem normalize_never_fails:
  "(\<forall>e. normalize vals \<noteq> Inl e)
   \<and> normalize [] = Inr []
   \<and> (dsum vals = Fin 0 \<longrightarrow>
        (\<exists>r. normalize vals = Inr r \<and> length r = length vals
           \<and> (\<forall>x \<in> set r. x = NaN \<or> x = PInf \<or> x = NInf)))"
proof -
  have "\<And>v. ddiv v (Fin 0) = NaN \<or> ddiv v (Fin 0) = PInf \<or> ddiv v (Fin 0) = NInf"
    using ddiv_zero_not_Fin by (metis double.exhaust)
  then show ?thesis by (auto simp: normalize_eq dsum_def)
qed

theorem normalize_never_fails_witness:
  "dsum [Fin 1, Fin (- 1)] = Fin 0 \<and> normalize [Fin 1, Fin (- 1)] = Inr [PInf, NInf]"
proof -
  have s: "dsum [Fin 1, Fin (- 1)] = Fin 0" by (simp add: dsum_def dadd_def)
  have "\<exists>r. normalize [Fin 1, Fin (- 1)] = Inr r"
    using normalize_never_fails [of "[Fin 1, Fin (- 1)]"] s by blast
  then show ?thesis
    using s by (simp add: normalize_eq ddiv_def dinf_def)
qed

text \<open>
  The claim as the specification states it fails at the empty sequence and at the
  sequence \<open>[0.0]\<close>, whose sum is zero: \<open>normalize\<close> returns a vector for both.
\<close>

theorem normalize_fails_counterexample:
  "normalize [] = Inr [] \<and> normalize [Fin 0] = Inr [NaN]"
  by (simp add: normalize_eq dsum_def dadd_def ddiv_def)








lemma bindE_Inr_iff: "bindE m f = Inr y \<longleftrightarrow> (\<exists>x. m = Inr x \<and> f x = Inr y)"
  by (cases m) (simp_all add: bindE_def)

lemma at_trace_Inr_iff: "at_trace t m = Inr x \<longleftrightarrow> m = Inr x"
  by (cases m) (simp_all add: at_trace_def)

lemma computeBatchSize_Inr:
  "computeBatchSize X c s = Inr s1 \<Longrightarrow>
     \<exists>b. (if batchSize s = 0
          then to_int64 (dmul (of_size (graph_size X (graph s))) (batchSizeRatio c))
          else Inr (batchSize s)) = Inr b
        \<and> s1 = s\<lparr>batchSize := b, trace := trace s @ [Batch_size b]\<rparr>"
  by (auto simp: computeBatchSize_def bindE_Inr_iff at_trace_Inr_iff)

lemma handleUpdateNature_Inr:
  "handleUpdateNature X pd nature g r b ed ei weights allow = Inr (g', r', w, evs) \<Longrightarrow>
     \<exists>dels ins. g' = applyBatchUpdateU X g dels ins
        \<and> evs = [Generated nature w, Applied dels ins]
        \<and> (nature \<noteq> [] \<longrightarrow> w = weights)"
  by (auto simp: handleUpdateNature_def bindE_Inr_iff split: if_splits prod.splits)

lemma updateGraph_Inr:
  "updateGraph X c s = Inr (s2, w) \<Longrightarrow>
     \<exists>g' r' dels ins. s2 = s\<lparr>graph := g', rng := r',
            trace := trace s @ [Generated (updateNature c) w, Applied dels ins]\<rparr>
        \<and> (updateNature c \<noteq> [] \<longrightarrow> w = [])"
  by (auto simp: updateGraph_def bindE_Inr_iff at_trace_Inr_iff dest!: handleUpdateNature_Inr)

lemma analyzeDistributions_Inr:
  "analyzeDistributions X s w = Inr (s3, p, a) \<Longrightarrow>
     normalize w = Inr a
     \<and> p = degreeDistributionToProbability (calculateInDegreeDistribution X (graph s) Map.empty)
     \<and> s3 = s\<lparr>trace := trace s @ [Analyzed w a p, calculateDegreeDistribution X (graph s)]\<rparr>"
  by (auto simp: analyzeDistributions_def bindE_Inr_iff at_trace_Inr_iff Let_def)

lemma writeRound_Inr:
  "writeRound X c E s = Inr s4 \<Longrightarrow>
     counter s \<noteq> 2 ^ 31 - 1
     \<and> file_creatable X (outputDir c @ outputPrefix c @ ''_'' @ to_string (counter s + 1))
     \<and> s4 = s\<lparr>counter := counter s + 1,
              trace := trace s @
                [Print_perform_batch (counter s + 1) (duration E (length (trace s)) / 1000),
                 File_written (outputDir c @ outputPrefix c @ ''_'' @ to_string (counter s + 1))
                   (writeEdgeList X (graph s)),
                 Print_write_batch (counter s + 1) (duration E (length (trace s) + 2) / 1000)]\<rparr>"
  by (auto simp: writeRound_def bindE_Inr_iff at_trace_Inr_iff Let_def createOutputFile_def
      split: if_splits)

lemma KLDivergence_error:
  "KLDivergence P Q = Inl e \<Longrightarrow> e = Invalid_argument ''Q[i] must be non-zero where P[i] is non-zero.''"
  by (simp add: KLDivergence_def KLDivergence_loop_eq Let_def split: if_splits)

lemma scoreFidelity_eq:
  "scoreFidelity s p a =
     Inr (s\<lparr>trace := trace s @
            [Scored p a,
             case KLDivergence p a of
               Inr d \<Rightarrow> Print_divergence d
             | Inl e \<Rightarrow> Print_error ''Error: Q[i] must be non-zero where P[i] is non-zero.'']\<rparr>)"
proof (cases "KLDivergence p a")
  case (Inl e)
  then show ?thesis
    using KLDivergence_error [OF Inl] by (simp add: scoreFidelity_def Let_def)
next
  case (Inr d)
  then show ?thesis by (simp add: scoreFidelity_def Let_def)
qed

text \<open>What a round that returns has done.\<close>

lemma round_body_Inr:
  assumes "round_body X c E s = Inr s'"
  shows "\<exists>b g' r' w dels ins a p.
      (if batchSize s = 0
       then to_int64 (dmul (of_size (graph_size X (graph s))) (batchSizeRatio c))
       else Inr (batchSize s)) = Inr b
      \<and> (updateNature c \<noteq> [] \<longrightarrow> w = [])
      \<and> normalize w = Inr a
      \<and> p = degreeDistributionToProbability (calculateInDegreeDistribution X g' Map.empty)
      \<and> counter s \<noteq> 2 ^ 31 - 1
      \<and> s' = s\<lparr>graph := g', rng := r', batchSize := b, counter := counter s + 1,
               trace := trace s @
                 [Batch_size b,
                  Generated (updateNature c) w,
                  Applied dels ins,
                  Analyzed w a p,
                  calculateDegreeDistribution X g',
                  Print_perform_batch (counter s + 1) (duration E (length (trace s) + 5) / 1000),
                  File_written (outputDir c @ outputPrefix c @ ''_'' @ to_string (counter s + 1))
                    (writeEdgeList X g'),
                  Print_write_batch (counter s + 1) (duration E (length (trace s) + 7) / 1000),
                  Scored p a,
                  case KLDivergence p a of
                    Inr d \<Rightarrow> Print_divergence d
                  | Inl e \<Rightarrow> Print_error ''Error: Q[i] must be non-zero where P[i] is non-zero.'']\<rparr>"
proof -
  from assms obtain s1 s2 w s3 p a s4 where
    1: "computeBatchSize X c s = Inr s1" and
    2: "updateGraph X c s1 = Inr (s2, w)" and
    3: "analyzeDistributions X s2 w = Inr (s3, p, a)" and
    4: "writeRound X c E s3 = Inr s4" and
    5: "scoreFidelity s4 p a = Inr s'"
    by (auto simp: round_body_def bindE_Inr_iff)
  from computeBatchSize_Inr [OF 1] obtain b where
    b: "(if batchSize s = 0
         then to_int64 (dmul (of_size (graph_size X (graph s))) (batchSizeRatio c))
         else Inr (batchSize s)) = Inr b"
    and s1: "s1 = s\<lparr>batchSize := b, trace := trace s @ [Batch_size b]\<rparr>"
    by blast
  from updateGraph_Inr [OF 2] obtain g' r' dels ins where
    s2: "s2 = s1\<lparr>graph := g', rng := r',
            trace := trace s1 @ [Generated (updateNature c) w, Applied dels ins]\<rparr>"
    and w: "updateNature c \<noteq> [] \<longrightarrow> w = []"
    by blast
  from analyzeDistributions_Inr [OF 3] have
    a: "normalize w = Inr a" and
    p: "p = degreeDistributionToProbability (calculateInDegreeDistribution X (graph s2) Map.empty)" and
    s3: "s3 = s2\<lparr>trace := trace s2 @ [Analyzed w a p, calculateDegreeDistribution X (graph s2)]\<rparr>"
    by simp_all
  from writeRound_Inr [OF 4] have
    n: "counter s3 \<noteq> 2 ^ 31 - 1" and
    s4: "s4 = s3\<lparr>counter := counter s3 + 1,
              trace := trace s3 @
                [Print_perform_batch (counter s3 + 1) (duration E (length (trace s3)) / 1000),
                 File_written (outputDir c @ outputPrefix c @ ''_'' @ to_string (counter s3 + 1))
                   (writeEdgeList X (graph s3)),
                 Print_write_batch (counter s3 + 1) (duration E (length (trace s3) + 2) / 1000)]\<rparr>"
    by simp_all
  from 5 have s': "s' = s4\<lparr>trace := trace s4 @
            [Scored p a,
             case KLDivergence p a of
               Inr d \<Rightarrow> Print_divergence d
             | Inl e \<Rightarrow> Print_error ''Error: Q[i] must be non-zero where P[i] is non-zero.'']\<rparr>"
    by (simp add: scoreFidelity_eq)
  have g2: "graph s2 = g'" and g3: "graph s3 = g'" and c3: "counter s3 = counter s"
    and t3: "trace s3 = trace s @ [Batch_size b, Generated (updateNature c) w, Applied dels ins,
                Analyzed w a p, calculateDegreeDistribution X g']"
    by (simp_all add: s1 s2 s3)
  have "s' = s\<lparr>graph := g', rng := r', batchSize := b, counter := counter s + 1,
               trace := trace s @
                 [Batch_size b,
                  Generated (updateNature c) w,
                  Applied dels ins,
                  Analyzed w a p,
                  calculateDegreeDistribution X g',
                  Print_perform_batch (counter s + 1) (duration E (length (trace s) + 5) / 1000),
                  File_written (outputDir c @ outputPrefix c @ ''_'' @ to_string (counter s + 1))
                    (writeEdgeList X g'),
                  Print_write_batch (counter s + 1) (duration E (length (trace s) + 7) / 1000),
                  Scored p a,
                  case KLDivergence p a of
                    Inr d \<Rightarrow> Print_divergence d
                  | Inl e \<Rightarrow> Print_error ''Error: Q[i] must be non-zero where P[i] is non-zero.'']\<rparr>"
    unfolding s' s4 g3 c3 t3 by (simp add: s3 s2 s1 eval_nat_numeral)
  with b w a p [unfolded g2] n [unfolded c3] show ?thesis by blast
qed

lemma run_loop_nonneg: "0 \<le> N \<Longrightarrow> run_loop X c E N s = rounds X c E (nat N) s"
proof (induction "nat N" arbitrary: N s)
  case 0
  then show ?case by (simp add: run_loop.simps)
next
  case (Suc n)
  then have N: "0 < N" "n = nat (N - 1)" "nat N = Suc n" by simp_all
  have "run_loop X c E N s =
        (case round_body X c E s of Inl f \<Rightarrow> Inl f | Inr s' \<Rightarrow> run_loop X c E (N - 1) s')"
    using N(1) by (subst run_loop.simps) simp
  also have "\<dots> = bindE (round_body X c E s) (rounds X c E n)"
    using Suc.hyps(1) [OF N(2)] N(1) by (simp add: bindE_def N(2) split: sum.splits)
  finally show ?case by (simp add: N(3))
qed

lemma run_loop_negative: "N < 0 \<Longrightarrow> \<exists>f. run_loop X c E N s = Inl f"
proof (induction X c E N s rule: run_loop.induct)
  case (1 X c E multiBatch s)
  show ?case
  proof (cases "multiBatch \<le> - (2 ^ 63)")
    case True
    then show ?thesis using "1.prems" by (subst run_loop.simps) simp
  next
    case False
    show ?thesis
    proof (cases "round_body X c E s")
      case (Inl f)
      then show ?thesis using "1.prems" False by (subst run_loop.simps) simp
    next
      case (Inr s')
      then show ?thesis
        using "1.IH" [OF _ False Inr] "1.prems" False by (subst run_loop.simps) simp
    qed
  qed
qed

lemma run_loop_Inr:
  "run_loop X c E N s = Inr s' \<longleftrightarrow> 0 \<le> N \<and> rounds X c E (nat N) s = Inr s'"
proof (cases "0 \<le> N")
  case True
  then show ?thesis by (simp add: run_loop_nonneg)
next
  case False
  then show ?thesis using run_loop_negative [of N X c E s] by auto
qed

lemma steps_append: "steps (t @ u) = steps t @ steps u"
  by (simp add: steps_def)

lemma files_append: "files (t @ u) = files t @ files u"
  by (simp add: files_def)


lemma step_of_last:
  "step_of (case r of Inr d \<Rightarrow> Print_divergence d | Inl e \<Rightarrow> Print_error m) = []"
  "file_of (case r of Inr d \<Rightarrow> Print_divergence d | Inl e \<Rightarrow> Print_error m) = []"
  "batch_size_of (case r of Inr d \<Rightarrow> Print_divergence d | Inl e \<Rightarrow> Print_error m) = []"
  by (cases r; simp)+

lemma observe_degree_table:
  "step_of (calculateDegreeDistribution X g) = []"
  "file_of (calculateDegreeDistribution X g) = []"
  "batch_size_of (calculateDegreeDistribution X g) = []"
  by (simp_all add: calculateDegreeDistribution_def Let_def)

lemma round_body_steps:
  "round_body X c E s = Inr s' \<Longrightarrow> steps (trace s') = steps (trace s) @ round_steps"
  by (drule round_body_Inr)
    (auto simp: steps_append steps_def step_of_last observe_degree_table round_steps_def)


lemma rounds_steps:
  "rounds X c E n s = Inr s' \<Longrightarrow>
     steps (trace s') = steps (trace s) @ concat (replicate n round_steps)"
proof (induction n arbitrary: s)
  case 0
  then show ?case by simp
next
  case (Suc n)
  then obtain s1 where 1: "round_body X c E s = Inr s1" and 2: "rounds X c E n s1 = Inr s'"
    by (auto simp: bindE_Inr_iff)
  show ?case
    using Suc.IH [OF 2] round_body_steps [OF 1] by simp
qed
lemma pairs_single: "pairs [k \<mapsto> v] = [(k, v)]"
  by (simp add: pairs_def)

lemma demo_fields:
  "stoll demo = demo_stoll"
  "stod demo = demo_stod"
  "file_readable demo f = (f = ''g.mtx'')"
  "file_creatable demo f"
  "empty_graph demo = 0"
  "readMtxW demo g f = 1"
  "transpose_graph demo g = g"
  "symmetrize_graph demo g = 2 * g"
  "graph_order demo g = 1"
  "graph_size demo g = of_nat g"
  "graph_forEachVertex demo g = [(0, 0)]"
  "graph_forEachVertexKey demo g = [0]"
  "graph_forEachEdge demo g u = replicate g (0, 1)"
  "graph_indegree demo g u = of_nat g"
  "graph_degree demo g u = of_nat g"
  "mt19937_64 demo seed = nat seed"
  "customUpdate demo probDist r g b i d allow = ([Fin 1], Suc r, [(0, 0, 1)], [])"
  "uniformUpdate demo r g b i d allow = (Suc r, [(0, 0, 1)], [])"
  "preferentialUpdate demo r g b i d allow = (Suc r, [(0, 0, 1)], [])"
  "applyBatchUpdateU demo g deletions insertions = g + length insertions - length deletions"
  by (simp_all add: demo_def)

lemma demo_distribution:
  "degreeDistributionToProbability (calculateInDegreeDistribution demo g Map.empty) = [Fin 1]"
  by (simp add: degreeDistributionToProbability_def calculateInDegreeDistribution_def demo_fields
      increment_def pairs_single of_size_def ddiv_def)

lemma demo_table:
  "calculateDegreeDistribution demo g = Print_degree_distribution [(of_nat g, 1)]"
  by (simp add: calculateDegreeDistribution_def demo_fields increment_def pairs_single)

lemmas demo_simps =
  round_body_def computeBatchSize_def updateGraph_def analyzeDistributions_def
  writeRound_def scoreFidelity_def handleUpdateNature_def bindE_def at_trace_def
  demo_distribution demo_table normalize_eq dsum_def createOutputFile_def Let_def
  demo_config_def demo_env_def demo_state_def to_int64_def trunc_def of_size_def dmul_def
  KLDivergence_def upt_rec dne_def deq_def ddiv_def dlog_def dadd_def demo_fields

lemma round_body_counter:
  "round_body X c E s = Inr s' \<Longrightarrow> counter s' = counter s + 1 \<and> counter s \<noteq> 2 ^ 31 - 1"
  by (drule round_body_Inr) auto

lemma round_body_files:
  "round_body X c E s = Inr s' \<Longrightarrow>
     files (trace s') = files (trace s) @
       [(outputDir c @ outputPrefix c @ ''_'' @ to_string (counter s + 1),
         writeEdgeList X (graph s'))]"
  by (drule round_body_Inr)
    (auto simp: files_append files_def step_of_last observe_degree_table)


lemma rounds_counter:
  "rounds X c E n s = Inr s' \<Longrightarrow> counter s' = counter s + int n"
proof (induction n arbitrary: s)
  case 0
  then show ?case by simp
next
  case (Suc n)
  then obtain s1 where 1: "round_body X c E s = Inr s1" and 2: "rounds X c E n s1 = Inr s'"
    by (auto simp: bindE_Inr_iff)
  show ?case
    using Suc.IH [OF 2] round_body_counter [OF 1] by auto
qed

lemma rounds_files:
  "rounds X c E n s = Inr s' \<Longrightarrow>
     map fst (files (trace s')) = map fst (files (trace s)) @
       map (\<lambda>k. outputDir c @ outputPrefix c @ ''_'' @ to_string (counter s + int k)) [1..<Suc n]"
proof (induction n arbitrary: s)
  case 0
  then show ?case by simp
next
  case (Suc n)
  then obtain s1 where 1: "round_body X c E s = Inr s1" and 2: "rounds X c E n s1 = Inr s'"
    by (auto simp: bindE_Inr_iff)
  have c1: "counter s1 = counter s + 1" using round_body_counter [OF 1] by auto
  have shift: "map (\<lambda>k. outputDir c @ outputPrefix c @ ''_'' @ to_string (counter s + 1 + int k)) [1..<Suc n]
        = map (\<lambda>k. outputDir c @ outputPrefix c @ ''_'' @ to_string (counter s + int k)) [2..<Suc (Suc n)]"
    by (simp add: map_Suc_upt [symmetric] numeral_2_eq_2 del: upt_Suc) (simp add: algebra_simps)
  have "[1..<Suc (Suc n)] = 1 # [2..<Suc (Suc n)]"
    by (simp add: upt_conv_Cons numeral_2_eq_2)
  then show ?case
    using Suc.IH [OF 2] round_body_files [OF 1] shift by (simp add: c1)
qed


lemma param_string: "param opts k Inr d = Inr v \<longleftrightarrow> v = option_or (params opts k) d"
  by (auto simp: param_def at_trace_def option_or_def split: option.splits)

lemma apply_transforms_observe:
  "apply_transforms X E ts g t = Inr (g', t') \<Longrightarrow>
     steps t' = steps t \<and> files t' = files t \<and> batch_sizes t' = batch_sizes t"
proof (induction ts arbitrary: g t)
  case Nil
  then show ?case by simp
next
  case (Cons a ts)
  then obtain g1 where
    "apply_transforms X E ts g1 (t @ [Print_transform a (duration E (length t) / 1000)]) = Inr (g', t')"
    by (auto simp: bindE_Inr_iff)
  from Cons.IH [OF this] show ?case
    by (simp add: steps_def files_def batch_sizes_def)
qed

lemma handleOptions_Inr:
  assumes "handleOptions X opts E = Inr t" and "params opts ''help'' = None"
  shows "\<exists>bSizeRatio eInsertions eDeletions multiBatch seed g bSize t0 s'.
      param opts ''multi-batch'' (stoll X) 1 = Inr multiBatch
      \<and> param opts ''seed'' (stoll X) (uint (random_device E)) = Inr seed
      \<and> param opts ''batch-size'' (stoll X) 0 = Inr bSize
      \<and> param opts ''batch-size-ratio'' (stod X) (Fin 0) = Inr bSizeRatio
      \<and> steps t0 = [] \<and> files t0 = [] \<and> batch_sizes t0 = []
      \<and> run_loop X
           \<lparr>outputDir = option_or (params opts ''output-dir'') [],
            outputPrefix = option_or (params opts ''output-prefix'') [],
            batchSizeRatio = bSizeRatio,
            edgeInsertions = eInsertions, edgeDeletions = eDeletions,
            allowDuplicateEdges = (params opts ''allow-duplicate-edges'' \<noteq> None),
            probabilityDistribution = option_or (params opts ''probability-distribution'') [],
            updateNature = option_or (params opts ''update-nature'') []\<rparr>
           E multiBatch
           \<lparr>graph = g, rng = mt19937_64 X seed, batchSize = bSize, counter = 0, trace = t0\<rparr>
          = Inr s'
      \<and> t = trace s'"
proof -
  from assms obtain bSizeRatio eInsertions eDeletions multiBatch seed g0 g bSize t0 s' where
    "param opts ''multi-batch'' (stoll X) 1 = Inr multiBatch"
    "param opts ''seed'' (stoll X) (uint (random_device E)) = Inr seed"
    "param opts ''batch-size'' (stoll X) 0 = Inr bSize"
    "param opts ''batch-size-ratio'' (stod X) (Fin 0) = Inr bSizeRatio"
    "apply_transforms X E (transforms opts) g0 [Print_read_graph (duration E 0 / 1000)] = Inr (g, t0)"
    "run_loop X
           \<lparr>outputDir = option_or (params opts ''output-dir'') [],
            outputPrefix = option_or (params opts ''output-prefix'') [],
            batchSizeRatio = bSizeRatio,
            edgeInsertions = eInsertions, edgeDeletions = eDeletions,
            allowDuplicateEdges = (params opts ''allow-duplicate-edges'' \<noteq> None),
            probabilityDistribution = option_or (params opts ''probability-distribution'') [],
            updateNature = option_or (params opts ''update-nature'') []\<rparr>
           E multiBatch
           \<lparr>graph = g, rng = mt19937_64 X seed, batchSize = bSize, counter = 0, trace = t0\<rparr>
          = Inr s'"
    "t = trace s'"
    unfolding handleOptions_def
    by (simp add: bindE_Inr_iff param_string split: prod.splits) blast
  moreover from apply_transforms_observe [OF this(5)]
  have "steps t0 = [] \<and> files t0 = [] \<and> batch_sizes t0 = []"
    by (simp add: steps_def files_def batch_sizes_def)
  ultimately show ?thesis by blast
qed

lemma digits_nonempty: "digits n \<noteq> []"
  by (subst digits.simps) simp

lemma digit_inj: "a < 10 \<Longrightarrow> b < 10 \<Longrightarrow> char_of (48 + a :: nat) = char_of (48 + b :: nat) \<Longrightarrow> a = b"
proof -
  assume a: "a < 10" and b: "b < 10" and e: "char_of (48 + a :: nat) = char_of (48 + b :: nat)"
  have "of_char (char_of (48 + a :: nat)) = (48 + a :: nat)"
    using a by (simp add: of_char_of)
  moreover have "of_char (char_of (48 + b :: nat)) = (48 + b :: nat)"
    using b by (simp add: of_char_of)
  ultimately show "a = b" using e by simp
qed

lemma digits_inj: "digits n = digits m \<Longrightarrow> n = m"
proof (induction n arbitrary: m rule: digits.induct)
  case (1 n)
  show ?case
  proof (cases "n < 10")
    case n: True
    show ?thesis
    proof (cases "m < 10")
      case True
      then show ?thesis
        using "1.prems" n digit_inj [of n m]
        by (simp add: digits.simps [of n] digits.simps [of m])
    next
      case False
      then show ?thesis
        using "1.prems" n digits_nonempty [of "m div 10"]
        by (simp add: digits.simps [of n] digits.simps [of m])
    qed
  next
    case n: False
    show ?thesis
    proof (cases "m < 10")
      case True
      then show ?thesis
        using "1.prems" n digits_nonempty [of "n div 10"]
        by (simp add: digits.simps [of n] digits.simps [of m])
    next
      case False
      then have "digits (n div 10) = digits (m div 10)"
        and "char_of (48 + n mod 10) = (char_of (48 + m mod 10) :: char)"
        using "1.prems" n by (simp_all add: digits.simps [of n] digits.simps [of m])
      then have "n div 10 = m div 10" and "n mod 10 = m mod 10"
        using "1.IH" [OF n] digit_inj [of "n mod 10" "m mod 10"] by simp_all
      then show ?thesis by (metis div_mult_mod_eq)
    qed
  qed
qed

text \<open>Different counters give different file names.\<close>

lemma to_string_inj: "0 \<le> i \<Longrightarrow> 0 \<le> j \<Longrightarrow> to_string i = to_string j \<Longrightarrow> i = j"
  using digits_inj [of "nat i" "nat j"] by (simp add: to_string_def)

lemma distinct_names:
  "distinct (map (\<lambda>k. outDir @ outPrefix @ ''_'' @ to_string (int k)) [1..<Suc n])"
  by (auto simp: distinct_map inj_on_def dest: to_string_inj [rotated 2])

lemma to_string_1: "to_string 1 = ''1''"
  by code_simp

lemma to_string_2: "to_string 2 = ''2''"
  by code_simp

lemma to_string_12: "to_string 12 = ''12''"
  by code_simp

section \<open>The order of the steps of a round\<close>

lemma bindE_Inl_iff: "bindE m f = Inl e \<longleftrightarrow> m = Inl e \<or> (\<exists>x. m = Inr x \<and> f x = Inl e)"
  by (cases m) (simp_all add: bindE_def)

lemma at_trace_Inl_iff: "at_trace t m = Inl (e, u) \<longleftrightarrow> m = Inl e \<and> u = t"
  by (cases m) (auto simp: at_trace_def)

lemma computeBatchSize_Inl: "computeBatchSize X c s = Inl (e, t) \<Longrightarrow> t = trace s"
  by (auto simp: computeBatchSize_def bindE_Inl_iff at_trace_Inl_iff)

lemma updateGraph_Inl: "updateGraph X c s = Inl (e, t) \<Longrightarrow> t = trace s"
  by (auto simp: updateGraph_def bindE_Inl_iff at_trace_Inl_iff)

lemma analyzeDistributions_not_Inl: "analyzeDistributions X s w \<noteq> Inl f"
  by (simp add: analyzeDistributions_def normalize_eq at_trace_def bindE_def Let_def)

lemma writeRound_Inl: "writeRound X c E s = Inl (e, t) \<Longrightarrow> steps t = steps (trace s)"
  by (auto simp: writeRound_def bindE_Inl_iff at_trace_Inl_iff Let_def steps_def split: if_splits)

lemma scoreFidelity_not_Inl: "scoreFidelity s p a \<noteq> Inl f"
  by (simp add: scoreFidelity_eq)

text \<open>A round that fails has gone through the first steps of a round, in their order.\<close>

lemma round_body_Inl_steps:
  assumes "round_body X c E s = Inl (e, t)"
  shows "\<exists>m. steps t = steps (trace s) @ take m round_steps"
proof -
  consider
    (1) "computeBatchSize X c s = Inl (e, t)"
  | (2) s1 where "computeBatchSize X c s = Inr s1" "updateGraph X c s1 = Inl (e, t)"
  | (4) s1 s2 w s3 p a where "computeBatchSize X c s = Inr s1" "updateGraph X c s1 = Inr (s2, w)"
      "analyzeDistributions X s2 w = Inr (s3, p, a)" "writeRound X c E s3 = Inl (e, t)"
    using assms
    by (auto simp: round_body_def bindE_Inl_iff analyzeDistributions_not_Inl scoreFidelity_not_Inl)
  then show ?thesis
  proof cases
    case 1
    from computeBatchSize_Inl [OF 1]
    have "steps t = steps (trace s) @ take 0 round_steps"
      by simp
    then show ?thesis ..
  next
    case 2
    from computeBatchSize_Inr [OF 2(1)] updateGraph_Inl [OF 2(2)]
    have "steps t = steps (trace s) @ take 1 round_steps"
      by (auto simp: steps_def round_steps_def)
    then show ?thesis ..
  next
    case 4
    from computeBatchSize_Inr [OF 4(1)] updateGraph_Inr [OF 4(2)] analyzeDistributions_Inr [OF 4(3)]
      writeRound_Inl [OF 4(4)]
    have "steps t = steps (trace s) @ take 4 round_steps"
      by (auto simp: steps_def round_steps_def observe_degree_table)
    then show ?thesis ..
  qed
qed

lemma run_loop_Inl_steps:
  "run_loop X c E N s = Inl (e, t) \<Longrightarrow>
     \<exists>k m. steps t = steps (trace s) @ concat (replicate k round_steps) @ take m round_steps"
proof (induction X c E N s rule: run_loop.induct)
  case (1 X c E multiBatch s)
  show ?case
  proof (cases "multiBatch = 0 \<or> multiBatch \<le> - (2 ^ 63)")
    case True
    then have "steps t = steps (trace s) @ concat (replicate 0 round_steps) @ take 0 round_steps"
      using "1.prems" by (subst (asm) run_loop.simps) (auto split: if_splits)
    then show ?thesis by blast
  next
    case False
    then have nz: "multiBatch \<noteq> 0" and lo: "\<not> multiBatch \<le> - (2 ^ 63)" by simp_all
    show ?thesis
    proof (cases "round_body X c E s")
      case (Inl f)
      then have "round_body X c E s = Inl (e, t)"
        using "1.prems" nz lo by (subst (asm) run_loop.simps) simp
      from round_body_Inl_steps [OF this] obtain m where
        "steps t = steps (trace s) @ concat (replicate 0 round_steps) @ take m round_steps"
        by auto
      then show ?thesis by blast
    next
      case (Inr s1)
      then have "run_loop X c E (multiBatch - 1) s1 = Inl (e, t)"
        using "1.prems" nz lo by (subst (asm) run_loop.simps) simp
      from "1.IH" [OF nz lo Inr this] obtain k m where
        "steps t = steps (trace s1) @ concat (replicate k round_steps) @ take m round_steps"
        by blast
      then have "steps t = steps (trace s) @ concat (replicate (Suc k) round_steps) @ take m round_steps"
        using round_body_steps [OF Inr] by simp
      then show ?thesis by blast
    qed
  qed
qed

text \<open>
  Claim C5, as the program has it. A loop that returns has executed exactly
  \<open>multiBatch\<close> rounds, and the steps of every round are, in this order:
  ComputeBatchSize, GenerateBatch, ApplyBatch, AnalyzeDistributions, WriteOutput,
  ScoreFidelity. The file of a round is written before the fidelity of the round is
  scored. A loop that fails has executed some number of such rounds and then the
  first steps of one more, in the same order.
\<close>

theorem rounds_in_order:
  "(run_loop X c E multiBatch s = Inr s' \<longrightarrow>
      0 \<le> multiBatch
      \<and> steps (trace s') = steps (trace s) @ concat (replicate (nat multiBatch)
           [ComputeBatchSize, GenerateBatch, ApplyBatch, AnalyzeDistributions, WriteOutput,
            ScoreFidelity]))
   \<and> (run_loop X c E multiBatch s = Inl (e, t) \<longrightarrow>
        (\<exists>k m. steps t = steps (trace s) @ concat (replicate k
           [ComputeBatchSize, GenerateBatch, ApplyBatch, AnalyzeDistributions, WriteOutput,
            ScoreFidelity])
          @ take m [ComputeBatchSize, GenerateBatch, ApplyBatch, AnalyzeDistributions, WriteOutput,
            ScoreFidelity]))"
  using run_loop_Inl_steps [of X c E multiBatch s e t] rounds_steps [of X c E "nat multiBatch" s s']
  by (simp add: run_loop_Inr round_steps_def)

lemma demo_run_uniform:
  "run_loop demo (demo_config ''uniform'') demo_env 2 demo_state =
     Inr \<lparr>graph = 3, rng = 2, batchSize = 1, counter = 2,
          trace =
            [Batch_size 0, Generated ''uniform'' [], Applied [] [(0, 0, 1)],
             Analyzed [] [] [Fin 1], Print_degree_distribution [(2, 1)],
             Print_perform_batch 1 0,
             File_written ''out/g_1'' (writeEdgeList demo 2),
             Print_write_batch 1 0, Scored [Fin 1] [],
             Print_error ''Error: Q[i] must be non-zero where P[i] is non-zero.'',
             Batch_size 1, Generated ''uniform'' [], Applied [] [(0, 0, 1)],
             Analyzed [] [] [Fin 1], Print_degree_distribution [(3, 1)],
             Print_perform_batch 2 0,
             File_written ''out/g_2'' (writeEdgeList demo 3),
             Print_write_batch 2 0, Scored [Fin 1] [],
             Print_error ''Error: Q[i] must be non-zero where P[i] is non-zero.'']\<rparr>"
  by (simp add: run_loop_nonneg eval_nat_numeral) (simp add: demo_simps to_string_1 to_string_2)

lemma demo_run_failing:
  "run_loop demo (demo_config ''other'') demo_env 2 demo_state =
     Inl (Runtime_error ''Unknown update nature: other'', [Batch_size 0])"
  by (simp add: run_loop_nonneg eval_nat_numeral) (simp add: demo_simps)

theorem rounds_in_order_witness:
  "steps (result_trace (run_loop demo (demo_config ''uniform'') demo_env 2 demo_state)) =
     [ComputeBatchSize, GenerateBatch, ApplyBatch, AnalyzeDistributions, WriteOutput, ScoreFidelity,
      ComputeBatchSize, GenerateBatch, ApplyBatch, AnalyzeDistributions, WriteOutput, ScoreFidelity]
   \<and> steps (result_trace (run_loop demo (demo_config ''other'') demo_env 2 demo_state)) =
     [ComputeBatchSize]"
proof
  have "steps (trace demo_state) = []"
    by (simp add: demo_state_def steps_def)
  with rounds_in_order [of demo "demo_config ''uniform''" demo_env 2 demo_state, THEN conjunct1,
      rule_format, OF demo_run_uniform]
  show "steps (result_trace (run_loop demo (demo_config ''uniform'') demo_env 2 demo_state)) =
     [ComputeBatchSize, GenerateBatch, ApplyBatch, AnalyzeDistributions, WriteOutput, ScoreFidelity,
      ComputeBatchSize, GenerateBatch, ApplyBatch, AnalyzeDistributions, WriteOutput, ScoreFidelity]"
    by (simp add: demo_run_uniform result_trace_def eval_nat_numeral)
  from rounds_in_order [of demo "demo_config ''other''" demo_env 2 demo_state, THEN conjunct2,
      rule_format, OF demo_run_failing]
  have "\<exists>k m. steps [Batch_size 0] = steps (trace demo_state) @ concat (replicate k round_steps)
          @ take m round_steps"
    by (simp add: round_steps_def)
  then show "steps (result_trace (run_loop demo (demo_config ''other'') demo_env 2 demo_state)) =
     [ComputeBatchSize]"
    by (simp add: demo_run_failing result_trace_def steps_def)
qed

text \<open>
  The order of the specification, with ScoreFidelity before WriteOutput, is not the
  order of the program: in a run of one round the output is written first.
\<close>

theorem rounds_in_order_counterexample:
  "steps (result_trace (run_loop demo (demo_config ''uniform'') demo_env 1 demo_state)) =
     [ComputeBatchSize, GenerateBatch, ApplyBatch, AnalyzeDistributions, WriteOutput, ScoreFidelity]
   \<and> steps (result_trace (run_loop demo (demo_config ''uniform'') demo_env 1 demo_state)) \<noteq>
     [ComputeBatchSize, GenerateBatch, ApplyBatch, AnalyzeDistributions, ScoreFidelity, WriteOutput]"
  by (simp add: run_loop_nonneg) (simp add: demo_simps result_trace_def steps_def)

section \<open>The size of the batch\<close>








section \<open>The files of a run\<close>

lemma demo_parse: "demo_stoll ''2'' = Inr 2" "demo_stoll ''7'' = Inr 7" "demo_stod ''0.5'' = Inr (Fin (1 / 2))"
  by (simp_all add: demo_stoll_def demo_stod_def)

lemma demo_handleOptions:
  "handleOptions demo demo_options E =
     Inr [Print_read_graph (duration E 0 / 1000),
          Print_transform ''transpose'' (duration E 1 / 1000),
          Batch_size 0, Generated ''uniform'' [], Applied [] [(0, 0, 1)],
          Analyzed [] [] [Fin 1], Print_degree_distribution [(2, 1)],
          Print_perform_batch 1 (duration E 7 / 1000),
          File_written ''out/g_1'' (writeEdgeList demo 2),
          Print_write_batch 1 (duration E 9 / 1000), Scored [Fin 1] [],
          Print_error ''Error: Q[i] must be non-zero where P[i] is non-zero.'',
          Batch_size 1, Generated ''uniform'' [], Applied [] [(0, 0, 1)],
          Analyzed [] [] [Fin 1], Print_degree_distribution [(3, 1)],
          Print_perform_batch 2 (duration E 17 / 1000),
          File_written ''out/g_2'' (writeEdgeList demo 3),
          Print_write_batch 2 (duration E 19 / 1000), Scored [Fin 1] [],
          Print_error ''Error: Q[i] must be non-zero where P[i] is non-zero.'']"
  unfolding handleOptions_def demo_options_def
  apply (simp add: param_def at_trace_def bindE_def checkInputFile_def handleInputFormat_def
      handleInputTransform_def demo_fields demo_parse run_loop_nonneg eval_nat_numeral)
  apply (simp add: demo_simps to_string_1 to_string_2)
  done

text \<open>
  Claim C7. A run that reaches completion (one that has not been asked for the help
  text, which returns before the graph is read) has parsed a round count
  \<open>N \<ge> 0\<close> and has written exactly \<open>N\<close> files, in this order: the file of the
  \<open>k\<close>-th round has the name \<open><outputDir><outputPrefix>_<k>\<close>, for \<open>k\<close> from 1 to \<open>N\<close>.
  The names are pairwise different, so no counter is used twice. What the fidelity
  scoring of a round does, error or not, has no part in this.
\<close>

theorem files_of_a_run:
  assumes "handleOptions X opts E = Inr t" and "params opts ''help'' = None"
  shows "\<exists>N. param opts ''multi-batch'' (stoll X) 1 = Inr N \<and> 0 \<le> N
           \<and> length (files t) = nat N
           \<and> map fst (files t) =
               map (\<lambda>k. option_or (params opts ''output-dir'') []
                         @ option_or (params opts ''output-prefix'') []
                         @ ''_'' @ to_string (int k)) [1..<Suc (nat N)]
           \<and> distinct (map fst (files t))"
proof -
  from handleOptions_Inr [OF assms] obtain c N s0 s' where
    N: "param opts ''multi-batch'' (stoll X) 1 = Inr N" and
    c: "outputDir c = option_or (params opts ''output-dir'') []"
       "outputPrefix c = option_or (params opts ''output-prefix'') []" and
    s0: "counter s0 = 0" "files (trace s0) = []" and
    run: "run_loop X c E N s0 = Inr s'" and
    t: "t = trace s'"
    by (metis config.select_convs(1,2) run_state.select_convs(4,5))
  from run have nonneg: "0 \<le> N" and rounds: "rounds X c E (nat N) s0 = Inr s'"
    by (simp_all add: run_loop_Inr)
  have names: "map fst (files t) =
      map (\<lambda>k. option_or (params opts ''output-dir'') []
                @ option_or (params opts ''output-prefix'') []
                @ ''_'' @ to_string (int k)) [1..<Suc (nat N)]"
    using rounds_files [OF rounds] by (simp add: t c s0)
  then have "length (map fst (files t)) = nat N"
    by (simp del: upt_Suc)
  then have "length (files t) = nat N" by simp
  moreover have "distinct (map fst (files t))"
    unfolding names by (rule distinct_names)
  ultimately show ?thesis using N nonneg names by blast
qed

theorem files_of_a_run_witness:
  "map fst (run_files (handleOptions demo demo_options demo_env)) = [''out/g_1'', ''out/g_2'']
   \<and> param demo_options ''multi-batch'' (stoll demo) 1 = Inr 2"
proof -
  note run = demo_handleOptions [of demo_env]
  have no_help: "params demo_options ''help'' = None"
    by (simp add: demo_options_def)
  from files_of_a_run [OF run no_help] obtain N where
    "param demo_options ''multi-batch'' (stoll demo) 1 = Inr N" and
    "length (files (projr (handleOptions demo demo_options demo_env))) = nat N"
    by (auto simp: run)
  moreover have "param demo_options ''multi-batch'' (stoll demo) 1 = Inr 2"
    by (simp add: param_def demo_options_def demo_fields demo_parse at_trace_def)
  ultimately show ?thesis
    by (simp add: run run_files_def files_def)
qed

section \<open>The weights of a round\<close>

lemma argument_of_last:
  "normalize_argument_of (case res of Inr d \<Rightarrow> Print_divergence d | Inl e \<Rightarrow> Print_error m) = []"
  "scorer_argument_of (case res of Inr d \<Rightarrow> Print_divergence d | Inl e \<Rightarrow> Print_error m) = []"
  "normalize_argument_of (calculateDegreeDistribution X g) = []"
  "scorer_argument_of (calculateDegreeDistribution X g) = []"
  by (cases res; simp add: calculateDegreeDistribution_def Let_def)+

lemma round_body_arguments:
  "round_body X c E s = Inr s' \<Longrightarrow> updateNature c \<noteq> [] \<Longrightarrow>
     normalize_arguments (trace s') = normalize_arguments (trace s) @ [[]]
     \<and> scorer_arguments (trace s') = scorer_arguments (trace s) @ [[]]"
  by (drule round_body_Inr)
    (auto simp: normalize_arguments_def scorer_arguments_def argument_of_last normalize_eq)

lemma rounds_arguments:
  "rounds X c E n s = Inr s' \<Longrightarrow> updateNature c \<noteq> [] \<Longrightarrow>
     normalize_arguments (trace s') = normalize_arguments (trace s) @ replicate n []
     \<and> scorer_arguments (trace s') = scorer_arguments (trace s) @ replicate n []"
proof (induction n arbitrary: s)
  case 0
  then show ?case by simp
next
  case (Suc n)
  then obtain s1 where 1: "round_body X c E s = Inr s1" and 2: "rounds X c E n s1 = Inr s'"
    by (auto simp: bindE_Inr_iff)
  show ?case
    using Suc.IH [OF 2 Suc.prems(2)] round_body_arguments [OF 1 Suc.prems(2)]
    by (simp add: replicate_app_Cons_same)
qed

lemma writeRound_Inl_cases:
  "writeRound X c E s = Inl (e, t) \<Longrightarrow>
     t = trace s
     \<or> t = trace s @ [Print_perform_batch (counter s + 1) (duration E (length (trace s)) / 1000)]"
  by (auto simp: writeRound_def bindE_Inl_iff at_trace_Inl_iff Let_def split: if_splits)

lemma round_body_Inl_arguments:
  assumes "round_body X c E s = Inl (e, t)" and "updateNature c \<noteq> []"
  shows "\<exists>k. normalize_arguments t = normalize_arguments (trace s) @ replicate k []
           \<and> scorer_arguments t = scorer_arguments (trace s)"
proof -
  consider
    (1) "computeBatchSize X c s = Inl (e, t)"
  | (2) s1 where "computeBatchSize X c s = Inr s1" "updateGraph X c s1 = Inl (e, t)"
  | (4) s1 s2 w s3 p a where "computeBatchSize X c s = Inr s1" "updateGraph X c s1 = Inr (s2, w)"
      "analyzeDistributions X s2 w = Inr (s3, p, a)" "writeRound X c E s3 = Inl (e, t)"
    using assms(1)
    by (auto simp: round_body_def bindE_Inl_iff analyzeDistributions_not_Inl scoreFidelity_not_Inl)
  then show ?thesis
  proof cases
    case 1
    from computeBatchSize_Inl [OF 1]
    have "normalize_arguments t = normalize_arguments (trace s) @ replicate 0 []
           \<and> scorer_arguments t = scorer_arguments (trace s)"
      by simp
    then show ?thesis ..
  next
    case 2
    from computeBatchSize_Inr [OF 2(1)] updateGraph_Inl [OF 2(2)]
    have "normalize_arguments t = normalize_arguments (trace s) @ replicate 0 []
           \<and> scorer_arguments t = scorer_arguments (trace s)"
      by (auto simp: normalize_arguments_def scorer_arguments_def)
    then show ?thesis ..
  next
    case 4
    from computeBatchSize_Inr [OF 4(1)] updateGraph_Inr [OF 4(2)] analyzeDistributions_Inr [OF 4(3)]
      writeRound_Inl_cases [OF 4(4)] assms(2)
    have "normalize_arguments t = normalize_arguments (trace s) @ replicate 1 []
           \<and> scorer_arguments t = scorer_arguments (trace s)"
      by (auto simp: normalize_arguments_def scorer_arguments_def argument_of_last)
    then show ?thesis ..
  qed
qed

lemma run_loop_Inl_arguments:
  "run_loop X c E N s = Inl (e, t) \<Longrightarrow> updateNature c \<noteq> [] \<Longrightarrow>
     \<exists>k j. normalize_arguments t = normalize_arguments (trace s) @ replicate k []
          \<and> scorer_arguments t = scorer_arguments (trace s) @ replicate j []"
proof (induction X c E N s rule: run_loop.induct)
  case (1 X c E multiBatch s)
  show ?case
  proof (cases "multiBatch = 0 \<or> multiBatch \<le> - (2 ^ 63)")
    case True
    then have "normalize_arguments t = normalize_arguments (trace s) @ replicate 0 []
          \<and> scorer_arguments t = scorer_arguments (trace s) @ replicate 0 []"
      using "1.prems"(1) by (subst (asm) run_loop.simps) (auto split: if_splits)
    then show ?thesis by blast
  next
    case False
    then have nz: "multiBatch \<noteq> 0" and lo: "\<not> multiBatch \<le> - (2 ^ 63)" by simp_all
    show ?thesis
    proof (cases "round_body X c E s")
      case (Inl f)
      then have "round_body X c E s = Inl (e, t)"
        using "1.prems"(1) nz lo by (subst (asm) run_loop.simps) simp
      from round_body_Inl_arguments [OF this "1.prems"(2)] obtain k where
        "normalize_arguments t = normalize_arguments (trace s) @ replicate k []
          \<and> scorer_arguments t = scorer_arguments (trace s) @ replicate 0 []"
        by auto
      then show ?thesis by blast
    next
      case (Inr s1)
      then have "run_loop X c E (multiBatch - 1) s1 = Inl (e, t)"
        using "1.prems"(1) nz lo by (subst (asm) run_loop.simps) simp
      from "1.IH" [OF nz lo Inr this "1.prems"(2)] obtain k j where
        "normalize_arguments t = normalize_arguments (trace s1) @ replicate k []"
        "scorer_arguments t = scorer_arguments (trace s1) @ replicate j []"
        by blast
      then have "normalize_arguments t = normalize_arguments (trace s) @ replicate (Suc k) []
          \<and> scorer_arguments t = scorer_arguments (trace s) @ replicate (Suc j) []"
        using round_body_arguments [OF Inr "1.prems"(2)] by (simp add: replicate_app_Cons_same)
      then show ?thesis by blast
    qed
  qed
qed

text \<open>
  Claim C10. For every update nature other than the empty string,
  \<open>handleUpdateNature\<close>, when it returns, leaves the vector of weights as it was
  given; the loop gives it the empty vector. So in a loop with such an update
  nature, whether the loop returns or fails, every vector handed to \<open>normalize\<close> is
  empty, and so is every vector handed to \<open>KLDivergence\<close> as its second argument; a
  loop that returns has handed over one such vector in each of its \<open>multiBatch\<close>
  rounds.
\<close>

theorem weights_empty_unless_custom:
  "(nature \<noteq> [] \<and>
      handleUpdateNature X probDist nature g r bSize eDeletions eInsertions weights allowDup
        = Inr (g', r', w, evs) \<longrightarrow> w = weights)
   \<and> (updateNature c \<noteq> [] \<longrightarrow>
        (\<exists>k j.
           normalize_arguments (result_trace (run_loop X c E multiBatch s)) =
             normalize_arguments (trace s) @ replicate k []
           \<and> scorer_arguments (result_trace (run_loop X c E multiBatch s)) =
             scorer_arguments (trace s) @ replicate j []
           \<and> (\<forall>s'. run_loop X c E multiBatch s = Inr s' \<longrightarrow>
                 k = nat multiBatch \<and> j = nat multiBatch)))"
proof (intro conjI impI)
  assume "nature \<noteq> [] \<and>
      handleUpdateNature X probDist nature g r bSize eDeletions eInsertions weights allowDup
        = Inr (g', r', w, evs)"
  then show "w = weights"
    using handleUpdateNature_Inr [of X probDist nature g r bSize eDeletions eInsertions weights
      allowDup g' r' w evs]
    by blast
next
  assume n: "updateNature c \<noteq> []"
  show "\<exists>k j.
           normalize_arguments (result_trace (run_loop X c E multiBatch s)) =
             normalize_arguments (trace s) @ replicate k []
           \<and> scorer_arguments (result_trace (run_loop X c E multiBatch s)) =
             scorer_arguments (trace s) @ replicate j []
           \<and> (\<forall>s'. run_loop X c E multiBatch s = Inr s' \<longrightarrow>
                 k = nat multiBatch \<and> j = nat multiBatch)"
  proof (cases "run_loop X c E multiBatch s")
    case (Inl f)
    obtain e t where f: "f = (e, t)" by (cases f)
    from run_loop_Inl_arguments [OF Inl [unfolded f] n] show ?thesis
      by (simp add: Inl f result_trace_def)
  next
    case (Inr s')
    then have "rounds X c E (nat multiBatch) s = Inr s'"
      by (simp add: run_loop_Inr)
    from rounds_arguments [OF this n] show ?thesis
      by (intro exI [of _ "nat multiBatch"]) (simp add: Inr result_trace_def)
  qed
qed

lemma demo_handleUpdateNature:
  "handleUpdateNature demo [] ''preferential'' 1 0 0 (Fin 1) (Fin 0) [Fin 3] True
     = Inr (2, 1, [Fin 3], [Generated ''preferential'' [Fin 3], Applied [] [(0, 0, 1)]])"
  by (simp add: handleUpdateNature_def bindE_def demo_fields)

text \<open>
  In the small instance the generator of the update nature \<open>preferential\<close> leaves the
  weights \<open>[3.0]\<close> as they are, and the two rounds of a run with the update nature
  \<open>uniform\<close> hand empty vectors to \<open>normalize\<close> and to \<open>KLDivergence\<close>.
\<close>

theorem weights_empty_unless_custom_witness:
  "handleUpdateNature demo [] ''preferential'' 1 0 0 (Fin 1) (Fin 0) [Fin 3] True
     = Inr (2, 1, [Fin 3], [Generated ''preferential'' [Fin 3], Applied [] [(0, 0, 1)]])
   \<and> normalize_arguments (result_trace
         (run_loop demo (demo_config ''uniform'') demo_env 2 demo_state)) = [[], []]
   \<and> scorer_arguments (result_trace
         (run_loop demo (demo_config ''uniform'') demo_env 2 demo_state)) = [[], []]"
proof -
  have n: "''preferential'' \<noteq> []" "updateNature (demo_config ''uniform'') \<noteq> []"
    by (simp_all add: demo_config_def)
  have 0: "normalize_arguments (trace demo_state) = []" "scorer_arguments (trace demo_state) = []"
    by (simp_all add: demo_state_def normalize_arguments_def scorer_arguments_def)
  from weights_empty_unless_custom [THEN conjunct1, rule_format,
      OF conjI [OF n(1) demo_handleUpdateNature]]
  have 1: "handleUpdateNature demo [] ''preferential'' 1 0 0 (Fin 1) (Fin 0) [Fin 3] True
     = Inr (2, 1, [Fin 3], [Generated ''preferential'' [Fin 3], Applied [] [(0, 0, 1)]])"
    by (simp only: demo_handleUpdateNature)
  from weights_empty_unless_custom [THEN conjunct2, rule_format, OF n(2),
      of demo demo_env 2 demo_state]
  obtain k j where
    "normalize_arguments (result_trace
         (run_loop demo (demo_config ''uniform'') demo_env 2 demo_state)) = replicate k []"
    "scorer_arguments (result_trace
         (run_loop demo (demo_config ''uniform'') demo_env 2 demo_state)) = replicate j []"
    "k = 2" "j = 2"
    by (auto simp: 0 demo_run_uniform)
  then have 2: "normalize_arguments (result_trace
         (run_loop demo (demo_config ''uniform'') demo_env 2 demo_state)) = [[], []]
   \<and> scorer_arguments (result_trace
         (run_loop demo (demo_config ''uniform'') demo_env 2 demo_state)) = [[], []]"
    by (simp add: eval_nat_numeral)
  from 1 2 show ?thesis by (rule conjI)
qed

section \<open>A round whose scoring fails\<close>





section \<open>Two runs with the same seed\<close>

lemma same_events_refl: "same_events t t"
  by (simp add: same_events_def)

lemma same_events_snoc: "same_events t u \<Longrightarrow> untimed a = untimed b \<Longrightarrow> same_events (t @ [a]) (u @ [b])"
  by (simp add: same_events_def)

lemma same_events_append: "same_events t u \<Longrightarrow> same_events (t @ v) (u @ v)"
  by (simp add: same_events_def)

lemma same_events_files: "same_events t u \<Longrightarrow> files t = files u"
proof -
  have f: "\<And>ev. file_of (untimed ev) = file_of ev"
    by (case_tac ev) simp_all
  have "\<And>t. files (map untimed t) = files t"
    by (simp add: files_def comp_def f)
  then show "same_events t u \<Longrightarrow> files t = files u"
    unfolding same_events_def by metis
qed

lemma bindE_same:
  "same_result B m1 m2 \<Longrightarrow> (\<And>x y. B x y \<Longrightarrow> same_result C (f1 x) (f2 y)) \<Longrightarrow>
     same_result C (bindE m1 f1) (bindE m2 f2)"
  by (cases m1; cases m2) (auto simp: same_result_def bindE_def)

lemma bindE_same_strong:
  "same_result B m1 m2 \<Longrightarrow>
     (\<And>x y. m1 = Inr x \<Longrightarrow> B x y \<Longrightarrow> same_result C (f1 x) (f2 y)) \<Longrightarrow>
     same_result C (bindE m1 f1) (bindE m2 f2)"
  by (cases m1; cases m2) (auto simp: same_result_def bindE_def)

lemma bindE_same_refl:
  "(\<And>x. same_result C (f1 x) (f2 x)) \<Longrightarrow> same_result C (bindE m f1) (bindE m f2)"
  by (cases m) (auto simp: same_result_def bindE_def same_events_refl)

lemma at_trace_same:
  "same_events t u \<Longrightarrow> same_result (=) (at_trace t m) (at_trace u m)"
  by (cases m) (simp_all add: same_result_def at_trace_def)

lemma same_result_Inr: "same_result R (Inr x) (Inr y) = R x y"
  by (simp add: same_result_def)

lemma computeBatchSize_same:
  "same_state s1 s2 \<Longrightarrow> same_result same_state (computeBatchSize X c s1) (computeBatchSize X c s2)"
  unfolding computeBatchSize_def
  by (rule bindE_same [where B = "(=)"])
    (auto simp: same_state_def same_result_Inr intro: at_trace_same same_events_snoc)

lemma updateGraph_same:
  "same_state s1 s2 \<Longrightarrow>
     same_result (\<lambda>(a, w) (b, v). same_state a b \<and> w = v)
       (updateGraph X c s1) (updateGraph X c s2)"
  unfolding updateGraph_def
  by (rule bindE_same [where B = "(=)"])
    (auto simp: same_state_def same_result_Inr intro: at_trace_same same_events_append)

lemma analyzeDistributions_same:
  "same_state s1 s2 \<Longrightarrow>
     same_result (\<lambda>(a, p) (b, q). same_state a b \<and> p = q)
       (analyzeDistributions X s1 w) (analyzeDistributions X s2 w)"
  unfolding analyzeDistributions_def
  by (rule bindE_same [where B = "(=)"])
    (auto simp: same_state_def same_result_Inr Let_def intro: at_trace_same same_events_append)

lemma writeRound_same:
  "same_state s1 s2 \<Longrightarrow> same_result same_state (writeRound X c E1 s1) (writeRound X c E2 s2)"
  by (auto simp: writeRound_def same_state_def same_result_def Let_def bindE_def at_trace_def
      createOutputFile_def same_events_def)

lemma scoreFidelity_same:
  "same_state s1 s2 \<Longrightarrow> same_result same_state (scoreFidelity s1 p a) (scoreFidelity s2 p a)"
  by (auto simp: scoreFidelity_eq same_state_def same_result_def same_events_def)

lemma round_body_same:
  assumes "same_state s1 s2"
  shows "same_result same_state (round_body X c E1 s1) (round_body X c E2 s2)"
  unfolding round_body_def
proof (rule bindE_same [OF computeBatchSize_same [OF assms]])
  fix a1 a2 :: "('a, 'b) run_state"
  assume "same_state a1 a2"
  then show "same_result same_state
        (bindE (updateGraph X c a1) (\<lambda>(s2, weights).
          bindE (analyzeDistributions X s2 weights) (\<lambda>(s3, p, a).
            bindE (writeRound X c E1 s3) (\<lambda>s4. scoreFidelity s4 p a))))
        (bindE (updateGraph X c a2) (\<lambda>(s2, weights).
          bindE (analyzeDistributions X s2 weights) (\<lambda>(s3, p, a).
            bindE (writeRound X c E2 s3) (\<lambda>s4. scoreFidelity s4 p a))))"
  proof (rule bindE_same [OF updateGraph_same], clarify)
    fix b1 b2 :: "('a, 'b) run_state" and w
    assume "same_state b1 b2"
    then show "same_result same_state
        (bindE (analyzeDistributions X b1 w) (\<lambda>(s3, p, a).
            bindE (writeRound X c E1 s3) (\<lambda>s4. scoreFidelity s4 p a)))
        (bindE (analyzeDistributions X b2 w) (\<lambda>(s3, p, a).
            bindE (writeRound X c E2 s3) (\<lambda>s4. scoreFidelity s4 p a)))"
    proof (rule bindE_same [OF analyzeDistributions_same], clarify)
      fix c1 c2 :: "('a, 'b) run_state" and p a
      assume "same_state c1 c2"
      then show "same_result same_state
          (bindE (writeRound X c E1 c1) (\<lambda>s4. scoreFidelity s4 p a))
          (bindE (writeRound X c E2 c2) (\<lambda>s4. scoreFidelity s4 p a))"
        by (rule bindE_same [OF writeRound_same]) (rule scoreFidelity_same)
    qed
  qed
qed

lemma run_loop_same:
  "same_state s1 s2 \<Longrightarrow> same_result same_state (run_loop X c E1 N s1) (run_loop X c E2 N s2)"
proof (induction X c E1 N s1 arbitrary: s2 rule: run_loop.induct)
  case (1 X c E1 multiBatch s)
  show ?case
  proof (cases "multiBatch = 0 \<or> multiBatch \<le> - (2 ^ 63)")
    case True
    then show ?thesis
      using "1.prems"
      by (subst (1 2) run_loop.simps) (auto simp: same_result_def same_state_def)
  next
    case False
    then have nz: "multiBatch \<noteq> 0" and lo: "\<not> multiBatch \<le> - (2 ^ 63)" by simp_all
    have unfold: "\<And>E s. run_loop X c E multiBatch s =
        bindE (round_body X c E s) (run_loop X c E (multiBatch - 1))"
      using nz lo by (subst run_loop.simps) (simp add: bindE_def)
    show ?thesis
      unfolding unfold
    proof (rule bindE_same_strong [OF round_body_same [OF "1.prems"]])
      fix a b :: "('a, 'b) run_state"
      assume "round_body X c E1 s = Inr a" and "same_state a b"
      then show "same_result same_state (run_loop X c E1 (multiBatch - 1) a)
              (run_loop X c E2 (multiBatch - 1) b)"
        by (rule "1.IH" [OF nz lo])
    qed
  qed
qed

lemma apply_transforms_same:
  "same_events t u \<Longrightarrow>
     same_result (\<lambda>(g1, t1) (g2, t2). g1 = g2 \<and> same_events t1 t2)
       (apply_transforms X E1 ts g t) (apply_transforms X E2 ts g u)"
proof (induction ts arbitrary: g t u)
  case Nil
  then show ?case by (simp add: same_result_def)
next
  case (Cons a ts)
  show ?case
    unfolding apply_transforms.simps
    by (rule bindE_same [where B = "(=)"])
      (auto intro!: at_trace_same Cons.prems Cons.IH same_events_snoc)
qed

lemma param_seed:
  "params opts ''seed'' \<noteq> None \<Longrightarrow>
     param opts ''seed'' f (uint (random_device E1)) = param opts ''seed'' f (uint (random_device E2))"
  by (auto simp: param_def)

text \<open>With a seed, two runs differ in nothing but the readings of the clock.\<close>

lemma handleOptions_same:
  assumes "params opts ''seed'' \<noteq> None"
  shows "same_result same_events (handleOptions X opts E1) (handleOptions X opts E2)"
proof (cases "params opts ''help'' \<noteq> None")
  case True
  then show ?thesis by (simp add: handleOptions_def same_result_def same_events_def)
next
  case False
  have init: "same_events [Print_read_graph (duration E1 0 / 1000)] [Print_read_graph (duration E2 0 / 1000)]"
    by (simp add: same_events_def)
  have no_help: "(params opts ''help'' \<noteq> None) = False"
    using False by simp
  show ?thesis
    unfolding handleOptions_def param_seed [OF assms, of _ E1 E2] no_help if_False
    apply (intro bindE_same_refl)
    apply (rule bindE_same [OF apply_transforms_same [OF init]])
    apply (clarify)
    apply (rule bindE_same [where B = same_state])
     apply (rule run_loop_same)
     apply (simp add: same_state_def)
    apply (simp add: same_result_def same_state_def)
    done
qed

text \<open>
  Claim C8. When the command line gives a seed, two runs of the same command line
  write the same files, with the same names and the same contents, in the same
  order, and both return or both end with the same exception, whatever the random
  device and the clock give to each of them. The collaborators are functions of
  their arguments, and both runs find the same files on the disk.
\<close>

theorem seeded_runs_write_the_same_files:
  assumes "params opts ''seed'' \<noteq> None"
  shows "run_files (handleOptions X opts E1) = run_files (handleOptions X opts E2)
         \<and> run_error (handleOptions X opts E1) = run_error (handleOptions X opts E2)"
  using handleOptions_same [OF assms, of X E1 E2]
  by (auto simp: same_result_def run_files_def run_error_def dest: same_events_files
      split: sum.splits)

theorem seeded_runs_write_the_same_files_witness:
  "run_files (handleOptions demo demo_options demo_env) =
     [(''out/g_1'', writeEdgeList demo 2), (''out/g_2'', writeEdgeList demo 3)]
   \<and> run_files (handleOptions demo demo_options \<lparr>random_device = 5, duration = real\<rparr>) =
     [(''out/g_1'', writeEdgeList demo 2), (''out/g_2'', writeEdgeList demo 3)]"
proof -
  have seed: "params demo_options ''seed'' \<noteq> None"
    by (simp add: demo_options_def)
  have "run_files (handleOptions demo demo_options demo_env) =
     [(''out/g_1'', writeEdgeList demo 2), (''out/g_2'', writeEdgeList demo 3)]"
    by (simp add: demo_handleOptions run_files_def files_def)
  then show ?thesis
    using seeded_runs_write_the_same_files [OF seed, of demo demo_env
        "\<lparr>random_device = 5, duration = real\<rparr>"]
    by simp
qed

end
